theory Spec2Isabelle
  imports Complex_Main "HOL-Library.Log_Nat"
begin

section \<open>An inventory and point-of-sale backend (src/src/app.py)\<close>

text \<open>
  The Flask handlers of \<^verbatim>\<open>app.py\<close> are embedded as HOL functions over an explicit
  store.  A handler takes the authenticated user (the result of \<^verbatim>\<open>check_auth()\<close>,
  \<open>None\<close> when the bearer token is rejected), the JSON body and the store, and returns
  the HTTP response together with the store it leaves behind.

  \<^item> A number of a JSON body or of a row is the rational it denotes; counts are integers.
    Python's \<^verbatim>\<open>+\<close> and \<^verbatim>\<open>*\<close> on such numbers round when an operand is a float, so
    they are not the sum and the product of the rationals: the handlers that compute take
    the two operations as a parameter (\<open>arith\<close>), and what is proved holds for every such
    pair, the arithmetic of IEEE doubles included.
  \<^item> Row identifiers are natural numbers handed out by the store; user identifiers are
    strings.
  \<^item> The body of a sale request has the JSON types of the interface: a list of objects
    whose \<^verbatim>\<open>product_id\<close> is an identifier, whose \<^verbatim>\<open>quantity\<close> is an integer and whose
    \<^verbatim>\<open>unit_price\<close> is a number, each of them possibly absent or \<^verbatim>\<open>null\<close>.
  \<^item> The tables have no constraints of their own (no foreign keys, no cascades), and one
    request runs alone: nothing else writes to the store while a handler runs.
\<close>

subsection \<open>Responses and JSON fields\<close>

text \<open>
  \<open>Ok200 v\<close> is \<^verbatim>\<open>jsonify(v)\<close>; \<open>Err code msg\<close> is
  \<^verbatim>\<open>jsonify({'error': msg}), code\<close>.
\<close>

datatype 'a response = Ok200 'a | Err nat string

text \<open>
  A key of a JSON object read with \<^verbatim>\<open>d.get(key)\<close>: the key is absent, holds
  \<^verbatim>\<open>null\<close>, or holds a value.
\<close>

datatype 'a field = Absent | Null | Val 'a

subsection \<open>Arithmetic\<close>

text \<open>
  \<open>num_add a b\<close> is Python's \<^verbatim>\<open>a + b\<close> and \<open>num_mul p q\<close> is Python's product of the
  number \<open>p\<close> and the integer \<open>q\<close> (\<^verbatim>\<open>p * q\<close>, and \<^verbatim>\<open>q * p\<close>, which is the same number).
  \<open>exact\<close> is the arithmetic without rounding; Python's agrees with it as long as the
  results are representable, as they are for the numbers of the examples below.  An
  integer and a float of the same value are one number here: Python tells them apart only
  in results beyond \<open>2 ^ 53\<close>, where its integers stay exact and its floats round.
  Infinities and NaN are not numbers of the model.
\<close>

record arith =
  num_add :: "rat \<Rightarrow> rat \<Rightarrow> rat"
  num_mul :: "rat \<Rightarrow> int \<Rightarrow> rat"

definition exact :: arith where
  "exact = \<lparr>num_add = (\<lambda>a b. a + b), num_mul = (\<lambda>p q. p * of_int q)\<rparr>"

subsection \<open>Top products report\<close>

text \<open>
  One row of \<^verbatim>\<open>response.data\<close> in \<^verbatim>\<open>top_products\<close>: the selected columns
  \<^verbatim>\<open>quantity, unit_price, products(name)\<close>.  The embedded product is \<open>None\<close> when the
  store returns \<^verbatim>\<open>null\<close> for it.
\<close>

record report_row =
  rr_quantity :: int
  rr_unit_price :: rat
  rr_products :: "string option"

record top_entry =
  te_name :: string
  te_quantity :: int
  te_revenue :: rat

definition product_name :: "report_row \<Rightarrow> string" where
  "product_name item =
     (case rr_products item of Some n \<Rightarrow> n | None \<Rightarrow> ''Producto desconocido'')"

text \<open>
  \<^verbatim>\<open>product_sales\<close> is a Python dict, which keeps its keys in insertion order: an
  association list, a new key appended at the end.  \<open>add_sale\<close> is one pass of the loop
  body: create the entry with zeros when the name is new, then add to both sums.  The
  quantities are Python integers and add up exactly; the revenue is a number.
\<close>

fun add_sale :: "arith \<Rightarrow> string \<Rightarrow> int \<Rightarrow> rat \<Rightarrow> (string \<times> int \<times> rat) list \<Rightarrow> (string \<times> int \<times> rat) list" where
  "add_sale ar n q r [] = [(n, 0 + q, num_add ar 0 r)]"
| "add_sale ar n q r ((m, q', r') # xs) =
     (if m = n then (m, q' + q, num_add ar r' r) # xs else (m, q', r') # add_sale ar n q r xs)"

fun product_sales :: "arith \<Rightarrow> (string \<times> int \<times> rat) list \<Rightarrow> report_row list \<Rightarrow> (string \<times> int \<times> rat) list" where
  "product_sales ar acc [] = acc"
| "product_sales ar acc (item # items) =
     product_sales ar
       (add_sale ar (product_name item) (rr_quantity item)
          (num_mul ar (rr_unit_price item) (rr_quantity item)) acc)
       items"

text \<open>
  \<^verbatim>\<open>list.sort(key=..., reverse=True)\<close> is stable: entries with equal quantity keep
  their order.  That is a stable ascending sort on the negated key.
\<close>

definition top_products_list :: "arith \<Rightarrow> report_row list \<Rightarrow> top_entry list" where
  "top_products_list ar rows =
     take 10
       (sort_key (\<lambda>e. - te_quantity e)
          (map (\<lambda>(n, q, r). \<lparr>te_name = n, te_quantity = q, te_revenue = r\<rparr>)
             (product_sales ar [] rows)))"

text \<open>What a store call hands back to the handler: rows, or an exception.\<close>

datatype 'a reply = Data "'a list" | Exception string

text \<open>
  The handler.  The query \<^verbatim>\<open>sale_items.select(...).eq('sales.user_id', user.id)\<close> is
  answered by the store; its answer is the argument \<open>fetched\<close>.
\<close>

definition top_products :: "arith \<Rightarrow> string option \<Rightarrow> report_row reply \<Rightarrow> top_entry list response" where
  "top_products ar auth fetched =
     (case auth of
        None \<Rightarrow> Err 401 ''No autorizado''
      | Some uid \<Rightarrow>
          (case fetched of
             Exception m \<Rightarrow> Err 500 ''Error obteniendo reporte''
           | Data rows \<Rightarrow> Ok200 (top_products_list ar rows)))"

text \<open>
  The report as the specification words it.  The groups are the product names of the
  rows, each once, in the order of their first row.  A group holds the sum of the
  quantities of its rows and the revenue of its rows, added up row by row from 0 with
  Python's operations.  The groups are sorted by descending quantity, groups of equal
  quantity staying in their order, and the first ten are returned.
\<close>

fun first_seen :: "string list \<Rightarrow> string list" where
  "first_seen [] = []"
| "first_seen (x # xs) = x # first_seen (filter (\<lambda>y. y \<noteq> x) xs)"

definition total_quantity :: "report_row list \<Rightarrow> string \<Rightarrow> int" where
  "total_quantity rows n = sum_list (map rr_quantity (filter (\<lambda>r. product_name r = n) rows))"

definition total_revenue :: "arith \<Rightarrow> report_row list \<Rightarrow> string \<Rightarrow> rat" where
  "total_revenue ar rows n =
     foldl (num_add ar) 0
       (map (\<lambda>r. num_mul ar (rr_unit_price r) (rr_quantity r))
          (filter (\<lambda>r. product_name r = n) rows))"

definition group_entry :: "arith \<Rightarrow> report_row list \<Rightarrow> string \<Rightarrow> top_entry" where
  "group_entry ar rows n =
     \<lparr>te_name = n, te_quantity = total_quantity rows n, te_revenue = total_revenue ar rows n\<rparr>"

definition spec_top_products :: "arith \<Rightarrow> report_row list \<Rightarrow> top_entry list" where
  "spec_top_products ar rows =
     take 10
       (sort_key (\<lambda>e. - te_quantity e)
          (map (group_entry ar rows) (first_seen (map product_name rows))))"

text \<open>Auxiliary notions for the report: the sums held for a name, and the sorted list before the cut.\<close>

definition acc_sums :: "(string \<times> int \<times> rat) list \<Rightarrow> string \<Rightarrow> int \<times> rat" where
  "acc_sums acc n = (case map_of acc n of None \<Rightarrow> (0, 0) | Some v \<Rightarrow> v)"

definition all_entries :: "arith \<Rightarrow> report_row list \<Rightarrow> top_entry list" where
  "all_entries ar rows =
     sort_key (\<lambda>e. - te_quantity e)
       (map (\<lambda>(n, q, r). \<lparr>te_name = n, te_quantity = q, te_revenue = r\<rparr>)
          (product_sales ar [] rows))"

text \<open>A sample answer of the store, with a row whose product is gone.\<close>

definition rows3 :: "report_row list" where
  "rows3 = [\<lparr>rr_quantity = 2, rr_unit_price = 10, rr_products = Some ''A''\<rparr>,
         \<lparr>rr_quantity = 1, rr_unit_price = 5, rr_products = None\<rparr>,
         \<lparr>rr_quantity = 4, rr_unit_price = 1/2, rr_products = Some ''A''\<rparr>]"

subsection \<open>The store\<close>

text \<open>
  The tables the handlers read and write through the Supabase client, as lists of rows in
  insertion order.  \<open>clock\<close> is the database time that stamps \<^verbatim>\<open>sale_date\<close>.
\<close>

record product =
  p_id :: nat
  p_user_id :: string
  p_name :: string
  p_price :: rat
  p_stock :: int
  p_category :: "string option"
  p_low_stock_alert :: int

record customer =
  c_id :: nat
  c_user_id :: string
  c_name :: string
  c_email :: string
  c_phone :: string

record sale =
  s_id :: nat
  s_user_id :: string
  s_customer_id :: "nat option"
  s_total :: rat
  s_sale_date :: nat

record sale_item =
  si_sale_id :: nat
  si_product_id :: nat
  si_quantity :: int
  si_unit_price :: rat

record store =
  products :: "product list"
  customers :: "customer list"
  sales :: "sale list"
  sale_items :: "sale_item list"
  clock :: nat

text \<open>
  The store is a remote service, and the handlers test what it answers: a call is carried
  out and answers with the rows it selected or wrote (\<open>Done\<close>), answers with no rows and
  changes nothing (\<open>NoRows\<close>, the case \<^verbatim>\<open>not response.data\<close>), or raises and changes
  nothing (\<open>Raises\<close>, caught by the handler's \<^verbatim>\<open>except Exception\<close>).  Which of the
  three happens is not the handler's choice: an \<open>answers\<close> function gives the outcome of every
  call a handler makes.  The calls made inside the two loops of \<^verbatim>\<open>create_sale\<close>
  carry the position of the item in the request, counted from 0.
\<close>

datatype outcome = Done | NoRows | Raises string

datatype store_call =
    SelectProduct nat
  | InsertSale
  | InsertSaleItem nat
  | UpdateStock nat
  | DeleteSale
  | DeleteSaleItems
  | SelectSales
  | InsertProduct

type_synonym answers = "store_call \<Rightarrow> outcome"

text \<open>
  \<^verbatim>\<open>products.select('id, name, stock, price').eq('id', pid).eq('user_id', uid)\<close>
\<close>

definition select_product :: "outcome \<Rightarrow> nat \<Rightarrow> string \<Rightarrow> store \<Rightarrow> product reply" where
  "select_product out pid uid s =
     (case out of
        Raises m \<Rightarrow> Exception m
      | NoRows \<Rightarrow> Data []
      | Done \<Rightarrow> Data (filter (\<lambda>p. p_id p = pid \<and> p_user_id p = uid) (products s)))"

text \<open>The store numbers a new row above every identifier in the table.\<close>

definition new_id :: "nat list \<Rightarrow> nat" where
  "new_id ids = Suc (fold max ids 0)"

text \<open>\<^verbatim>\<open>sales.insert({'total': .., 'customer_id': .., 'user_id': ..})\<close>\<close>

definition insert_sale :: "outcome \<Rightarrow> rat \<Rightarrow> nat option \<Rightarrow> string \<Rightarrow> store \<Rightarrow> sale reply \<times> store" where
  "insert_sale out tot cust uid s =
     (case out of
        Raises m \<Rightarrow> (Exception m, s)
      | NoRows \<Rightarrow> (Data [], s)
      | Done \<Rightarrow>
          (let row = \<lparr>s_id = new_id (map s_id (sales s)), s_user_id = uid,
                      s_customer_id = cust, s_total = tot, s_sale_date = clock s\<rparr>
           in (Data [row], s\<lparr>sales := sales s @ [row]\<rparr>)))"

text \<open>\<^verbatim>\<open>sale_items.insert(sale_item_data)\<close>\<close>

definition insert_sale_item :: "outcome \<Rightarrow> sale_item \<Rightarrow> store \<Rightarrow> sale_item reply \<times> store" where
  "insert_sale_item out row s =
     (case out of
        Raises m \<Rightarrow> (Exception m, s)
      | NoRows \<Rightarrow> (Data [], s)
      | Done \<Rightarrow> (Data [row], s\<lparr>sale_items := sale_items s @ [row]\<rparr>))"

text \<open>
  \<^verbatim>\<open>products.update({'stock': new_stock}).eq('id', pid)\<close>: the filter is the product
  identifier alone.
\<close>

definition update_stock :: "outcome \<Rightarrow> nat \<Rightarrow> int \<Rightarrow> store \<Rightarrow> product reply \<times> store" where
  "update_stock out pid new_stock s =
     (case out of
        Raises m \<Rightarrow> (Exception m, s)
      | NoRows \<Rightarrow> (Data [], s)
      | Done \<Rightarrow>
          (Data (map (\<lambda>p. p\<lparr>p_stock := new_stock\<rparr>) (filter (\<lambda>p. p_id p = pid) (products s))),
           s\<lparr>products := map (\<lambda>p. if p_id p = pid then p\<lparr>p_stock := new_stock\<rparr> else p) (products s)\<rparr>))"

text \<open>\<^verbatim>\<open>sales.delete().eq('id', sale_id)\<close>\<close>

definition delete_sale :: "outcome \<Rightarrow> nat \<Rightarrow> store \<Rightarrow> sale reply \<times> store" where
  "delete_sale out sale_id s =
     (case out of
        Raises m \<Rightarrow> (Exception m, s)
      | NoRows \<Rightarrow> (Data [], s)
      | Done \<Rightarrow>
          (Data (filter (\<lambda>x. s_id x = sale_id) (sales s)),
           s\<lparr>sales := filter (\<lambda>x. s_id x \<noteq> sale_id) (sales s)\<rparr>))"

text \<open>\<^verbatim>\<open>sale_items.delete().eq('sale_id', sale_id)\<close>\<close>

definition delete_sale_items :: "outcome \<Rightarrow> nat \<Rightarrow> store \<Rightarrow> sale_item reply \<times> store" where
  "delete_sale_items out sale_id s =
     (case out of
        Raises m \<Rightarrow> (Exception m, s)
      | NoRows \<Rightarrow> (Data [], s)
      | Done \<Rightarrow>
          (Data (filter (\<lambda>x. si_sale_id x = sale_id) (sale_items s)),
           s\<lparr>sale_items := filter (\<lambda>x. si_sale_id x \<noteq> sale_id) (sale_items s)\<rparr>))"

subsection \<open>Formatting\<close>

text \<open>Python's \<^verbatim>\<open>str\<close> of an integer, as the f-strings of the error messages use it.\<close>

definition digit :: "nat \<Rightarrow> char" where
  "digit d = ''0123456789'' ! d"

function str_nat :: "nat \<Rightarrow> string" where
  "str_nat n =
     (if n < 10 then [digit n]
      else str_nat (n div 10) @ [digit (n mod 10)])"
  by pat_completeness auto
termination
  by (relation "measure id") auto

declare str_nat.simps [simp del]

definition str_int :: "int \<Rightarrow> string" where
  "str_int i = (if i < 0 then CHR ''-'' # str_nat (nat (- i)) else str_nat (nat i))"

definition internal_error :: "string \<Rightarrow> string" where
  "internal_error m = ''Error interno del servidor: '' @ m"

subsection \<open>Recording a sale\<close>

text \<open>
  The body of \<^verbatim>\<open>POST /api/sales\<close>: \<^verbatim>\<open>{items: [{product_id, quantity, unit_price?}],
  customer_id?}\<close>.  A client may send a \<^verbatim>\<open>total\<close> as well; the handler never reads it.
\<close>

record sale_line =
  i_product_id :: "nat field"
  i_quantity :: "int field"
  i_unit_price :: "rat field"

record sale_request =
  r_items :: "sale_line list field"
  r_customer_id :: "nat field"
  r_total :: "rat field"

text \<open>
  An element of \<^verbatim>\<open>items_to_process\<close>: the product row read during validation, the two
  keys of \<^verbatim>\<open>item_data\<close> that the second loop reads, and the unit price.
\<close>

record processed =
  ip_product :: product
  ip_product_id :: nat
  ip_quantity :: int
  ip_unit_price :: rat

text \<open>\<^verbatim>\<open>data.get('customer_id') or None\<close>\<close>

definition customer_ref :: "nat field \<Rightarrow> nat option" where
  "customer_ref f = (case f of Val c \<Rightarrow> (if c = 0 then None else Some c) | _ \<Rightarrow> None)"

definition item_required :: string where
  "item_required = ''Cada item debe tener product_id y quantity''"

definition none_times_int :: string where
  "none_times_int =
     ''unsupported operand type(s) for *: '' @ [CHR 0x27] @ ''NoneType'' @ [CHR 0x27]
       @ '' and '' @ [CHR 0x27] @ ''int'' @ [CHR 0x27]"

text \<open>
  The body of the first loop for the item at position \<open>i\<close>: the presence test
  (\<^verbatim>\<open>not item.get(..)\<close> holds for an absent key, \<^verbatim>\<open>null\<close> and 0), the read of the
  product among the user's rows, the stock test and the choice of the unit price.  An
  explicit \<^verbatim>\<open>unit_price: null\<close> makes the multiplication raise.
\<close>

definition check_item :: "answers \<Rightarrow> string \<Rightarrow> store \<Rightarrow> nat \<Rightarrow> sale_line \<Rightarrow> (nat \<times> string) + processed" where
  "check_item ans uid s i item =
     (case i_product_id item of
        Val pid \<Rightarrow>
          (case i_quantity item of
             Val q \<Rightarrow>
               if pid = 0 \<or> q = 0 then Inl (400, item_required)
               else
                 (case select_product (ans (SelectProduct i)) pid uid s of
                    Exception m \<Rightarrow> Inl (500, internal_error m)
                  | Data [] \<Rightarrow> Inl (404, ''Producto '' @ str_nat pid @ '' no encontrado'')
                  | Data (product # _) \<Rightarrow>
                      if p_stock product < q
                      then Inl (400, ''Stock insuficiente para '' @ p_name product
                                      @ ''. Stock disponible: '' @ str_int (p_stock product))
                      else
                        (case i_unit_price item of
                           Absent \<Rightarrow>
                             Inr \<lparr>ip_product = product, ip_product_id = pid, ip_quantity = q,
                                  ip_unit_price = p_price product\<rparr>
                         | Null \<Rightarrow> Inl (500, internal_error none_times_int)
                         | Val item_price \<Rightarrow>
                             Inr \<lparr>ip_product = product, ip_product_id = pid, ip_quantity = q,
                                  ip_unit_price = item_price\<rparr>))
           | _ \<Rightarrow> Inl (400, item_required))
      | _ \<Rightarrow> Inl (400, item_required))"

text \<open>
  The first loop: \<open>tot\<close> (the running \<^verbatim>\<open>total\<close>) and \<open>items_to_process\<close> are the accumulators, \<open>i\<close> the
  position of the next item.  It only reads the store.  \<^verbatim>\<open>total += item_price *
  item['quantity']\<close> is Python's arithmetic.
\<close>

fun check_items :: "arith \<Rightarrow> answers \<Rightarrow> string \<Rightarrow> store \<Rightarrow> nat \<Rightarrow> rat \<Rightarrow> processed list \<Rightarrow> sale_line list \<Rightarrow> (nat \<times> string) + (rat \<times> processed list)" where
  "check_items ar ans uid s i tot items_to_process [] = Inr (tot, items_to_process)"
| "check_items ar ans uid s i tot items_to_process (item # items) =
     (case check_item ans uid s i item of
        Inl e \<Rightarrow> Inl e
      | Inr p \<Rightarrow>
          check_items ar ans uid s (Suc i)
            (num_add ar tot (num_mul ar (ip_unit_price p) (ip_quantity p)))
            (items_to_process @ [p]) items)"

text \<open>
  The second loop.  For each validated item: insert the sale item; when that answers no
  row, delete the sale header and stop; otherwise set the product's stock to the stock
  read during validation minus the quantity; when that answers no row, delete the sale
  header and the sale's items and stop.  The result is the error response, if any, and
  the store.
\<close>

fun process_items :: "answers \<Rightarrow> nat \<Rightarrow> nat \<Rightarrow> processed list \<Rightarrow> store \<Rightarrow> (nat \<times> string) option \<times> store" where
  "process_items ans sale_id i [] s = (None, s)"
| "process_items ans sale_id i (item_info # rest) s =
     (case insert_sale_item (ans (InsertSaleItem i))
             \<lparr>si_sale_id = sale_id, si_product_id = ip_product_id item_info,
              si_quantity = ip_quantity item_info, si_unit_price = ip_unit_price item_info\<rparr> s of
        (Exception m, s1) \<Rightarrow> (Some (500, internal_error m), s1)
      | (Data [], s1) \<Rightarrow>
          (case delete_sale (ans DeleteSale) sale_id s1 of
             (Exception m, s2) \<Rightarrow> (Some (500, internal_error m), s2)
           | (Data _, s2) \<Rightarrow>
               (Some (400, ''Error creando item para '' @ p_name (ip_product item_info)), s2))
      | (Data (_ # _), s1) \<Rightarrow>
          (case update_stock (ans (UpdateStock i)) (p_id (ip_product item_info))
                  (p_stock (ip_product item_info) - ip_quantity item_info) s1 of
             (Exception m, s2) \<Rightarrow> (Some (500, internal_error m), s2)
           | (Data [], s2) \<Rightarrow>
               (case delete_sale (ans DeleteSale) sale_id s2 of
                  (Exception m, s3) \<Rightarrow> (Some (500, internal_error m), s3)
                | (Data _, s3) \<Rightarrow>
                    (case delete_sale_items (ans DeleteSaleItems) sale_id s3 of
                       (Exception m, s4) \<Rightarrow> (Some (500, internal_error m), s4)
                     | (Data _, s4) \<Rightarrow>
                         (Some (400, ''Error actualizando stock para ''
                                       @ p_name (ip_product item_info)), s4)))
           | (Data (_ # _), s2) \<Rightarrow> process_items ans sale_id (Suc i) rest s2))"

text \<open>\<^verbatim>\<open>create_sale\<close>, the handler of \<^verbatim>\<open>POST /api/sales\<close>.\<close>

definition create_sale :: "arith \<Rightarrow> answers \<Rightarrow> string option \<Rightarrow> sale_request \<Rightarrow> store \<Rightarrow> sale response \<times> store" where
  "create_sale ar ans auth data s =
     (case auth of
        None \<Rightarrow> (Err 401 ''No autorizado'', s)
      | Some uid \<Rightarrow>
          (case r_items data of
             Val (item # items) \<Rightarrow>
               (case check_items ar ans uid s 0 0 [] (item # items) of
                  Inl (code, msg) \<Rightarrow> (Err code msg, s)
                | Inr (tot, items_to_process) \<Rightarrow>
                    (case insert_sale (ans InsertSale) tot (customer_ref (r_customer_id data)) uid s of
                       (Exception m, s1) \<Rightarrow> (Err 500 (internal_error m), s1)
                     | (Data [], s1) \<Rightarrow>
                         (Err 400 ''Error creando la venta en la base de datos'', s1)
                     | (Data (sale_row # _), s1) \<Rightarrow>
                         (case process_items ans (s_id sale_row) 0 items_to_process s1 of
                            (Some (code, msg), s2) \<Rightarrow> (Err code msg, s2)
                          | (None, s2) \<Rightarrow> (Ok200 sale_row, s2))))
           | _ \<Rightarrow> (Err 400 ''La venta debe tener al menos un item'', s)))"

subsection \<open>Auxiliary notions for the sale transaction\<close>

text \<open>
  The store after passes of the second loop in which both store calls were carried out:
  the sale item appended, the stock of the product set to the stock read during
  validation minus the quantity.
\<close>

definition item_row :: "nat \<Rightarrow> processed \<Rightarrow> sale_item" where
  "item_row sale_id e =
     \<lparr>si_sale_id = sale_id, si_product_id = ip_product_id e,
      si_quantity = ip_quantity e, si_unit_price = ip_unit_price e\<rparr>"

definition set_stock :: "nat \<Rightarrow> int \<Rightarrow> product list \<Rightarrow> product list" where
  "set_stock pid n ps = map (\<lambda>p. if p_id p = pid then p\<lparr>p_stock := n\<rparr> else p) ps"

definition apply_item :: "nat \<Rightarrow> processed \<Rightarrow> store \<Rightarrow> store" where
  "apply_item sale_id e s =
     s\<lparr>sale_items := sale_items s @ [item_row sale_id e],
       products := set_stock (p_id (ip_product e)) (p_stock (ip_product e) - ip_quantity e) (products s)\<rparr>"

definition apply_items :: "nat \<Rightarrow> processed list \<Rightarrow> store \<Rightarrow> store" where
  "apply_items sale_id es s = foldl (\<lambda>s e. apply_item sale_id e s) s es"

definition line_total :: "arith \<Rightarrow> processed \<Rightarrow> rat" where
  "line_total ar e = num_mul ar (ip_unit_price e) (ip_quantity e)"

text \<open>
  What the statements about requests speak of: the product the user owns under an
  identifier (the first row the validation read returns), the effective unit price of a
  request item (its own \<^verbatim>\<open>unit_price\<close> when it has one, the catalog price of that
  product otherwise), the product and the quantity it asks for, the total of a request
  (the products of effective unit price and quantity, added up item by item from 0 with
  Python's operations), and the sale row the store creates for it.
\<close>

definition catalog_product :: "string \<Rightarrow> store \<Rightarrow> nat \<Rightarrow> product option" where
  "catalog_product uid s pid =
     (case filter (\<lambda>p. p_id p = pid \<and> p_user_id p = uid) (products s) of
        [] \<Rightarrow> None
      | p # _ \<Rightarrow> Some p)"

definition effective_unit_price :: "string \<Rightarrow> store \<Rightarrow> sale_line \<Rightarrow> rat" where
  "effective_unit_price uid s item =
     (case i_unit_price item of
        Val up \<Rightarrow> up
      | _ \<Rightarrow>
          (case i_product_id item of
             Val pid \<Rightarrow> (case catalog_product uid s pid of Some p \<Rightarrow> p_price p | None \<Rightarrow> 0)
           | _ \<Rightarrow> 0))"

definition requested_product :: "sale_line \<Rightarrow> nat" where
  "requested_product item = (case i_product_id item of Val pid \<Rightarrow> pid | _ \<Rightarrow> 0)"

definition requested_quantity :: "sale_line \<Rightarrow> int" where
  "requested_quantity item = (case i_quantity item of Val q \<Rightarrow> q | _ \<Rightarrow> 0)"

definition sale_total :: "arith \<Rightarrow> string \<Rightarrow> store \<Rightarrow> sale_line list \<Rightarrow> rat" where
  "sale_total ar uid s items =
     foldl (num_add ar) 0
       (map (\<lambda>item. num_mul ar (effective_unit_price uid s item) (requested_quantity item)) items)"

definition new_sale :: "string \<Rightarrow> sale_request \<Rightarrow> rat \<Rightarrow> store \<Rightarrow> sale" where
  "new_sale uid data tot s =
     \<lparr>s_id = new_id (map s_id (sales s)), s_user_id = uid,
      s_customer_id = customer_ref (r_customer_id data), s_total = tot, s_sale_date = clock s\<rparr>"

text \<open>
  A product row after successful passes of the second loop for the entries \<open>es\<close>: the
  last entry for the product decides, and sets the stock to the stock read during
  validation minus its quantity.
\<close>

definition sold :: "processed list \<Rightarrow> product \<Rightarrow> product" where
  "sold es p =
     (case find (\<lambda>e. p_id (ip_product e) = p_id p) (rev es) of
        None \<Rightarrow> p
      | Some e \<Rightarrow> p\<lparr>p_stock := p_stock (ip_product e) - ip_quantity e\<rparr>)"

text \<open>
  An item that asks for more than the stock of the product it refers to, the message of
  that error, and an item without a product reference or without a quantity (absent,
  \<^verbatim>\<open>null\<close> or 0).
\<close>

definition understocked :: "string \<Rightarrow> store \<Rightarrow> sale_line \<Rightarrow> bool" where
  "understocked uid s item =
     (case i_product_id item of
        Val pid \<Rightarrow>
          (case i_quantity item of
             Val q \<Rightarrow> (case catalog_product uid s pid of Some p \<Rightarrow> p_stock p < q | None \<Rightarrow> False)
           | _ \<Rightarrow> False)
      | _ \<Rightarrow> False)"

definition insufficient_stock :: "product \<Rightarrow> string" where
  "insufficient_stock p =
     ''Stock insuficiente para '' @ p_name p @ ''. Stock disponible: '' @ str_int (p_stock p)"

definition lacks_reference :: "sale_line \<Rightarrow> bool" where
  "lacks_reference item = (case i_product_id item of Val pid \<Rightarrow> pid = 0 | _ \<Rightarrow> True)"

definition lacks_quantity :: "sale_line \<Rightarrow> bool" where
  "lacks_quantity item = (case i_quantity item of Val q \<Rightarrow> q = 0 | _ \<Rightarrow> True)"

text \<open>
  Two product tables are related by \<open>restocked P\<close> when they hold the same rows in the
  same order, up to the stock of rows whose identifier is in \<open>P\<close>.
\<close>

definition restocked :: "nat set \<Rightarrow> product \<Rightarrow> product \<Rightarrow> bool" where
  "restocked P p p' = (p' = p \<or> (p_id p \<in> P \<and> (\<exists>n. p' = p\<lparr>p_stock := n\<rparr>)))"

subsection \<open>A sample store\<close>

text \<open>
  Two users, \<open>ana\<close> and \<open>beto\<close>: three products and two customers, no sale yet.  The
  theorems below are instantiated on it.
\<close>

definition cafe :: product where
  "cafe = \<lparr>p_id = 1, p_user_id = ''ana'', p_name = ''Cafe'', p_price = 5 / 2, p_stock = 10,
           p_category = Some ''bebidas'', p_low_stock_alert = 5\<rparr>"

definition te :: product where
  "te = \<lparr>p_id = 2, p_user_id = ''ana'', p_name = ''Te'', p_price = 3, p_stock = 4,
         p_category = Some ''bebidas'', p_low_stock_alert = 5\<rparr>"

definition mate :: product where
  "mate = \<lparr>p_id = 3, p_user_id = ''beto'', p_name = ''Mate'', p_price = 7, p_stock = 6,
           p_category = None, p_low_stock_alert = 5\<rparr>"

definition luz :: customer where
  "luz = \<lparr>c_id = 1, c_user_id = ''ana'', c_name = ''Luz'', c_email = ''luz@example.org'',
          c_phone = ''555-0101''\<rparr>"

definition raul :: customer where
  "raul = \<lparr>c_id = 2, c_user_id = ''beto'', c_name = ''Raul'', c_email = ''raul@example.org'',
           c_phone = ''555-0102''\<rparr>"

definition shop :: store where
  "shop = \<lparr>products = [cafe, te, mate], customers = [luz, raul], sales = [], sale_items = [],
           clock = 100\<rparr>"

text \<open>A request item without \<^verbatim>\<open>unit_price\<close>, and a request with nothing but items.\<close>

definition line :: "nat \<Rightarrow> int \<Rightarrow> sale_line" where
  "line pid q = \<lparr>i_product_id = Val pid, i_quantity = Val q, i_unit_price = Absent\<rparr>"

definition order :: "sale_line list \<Rightarrow> sale_request" where
  "order items = \<lparr>r_items = Val items, r_customer_id = Absent, r_total = Absent\<rparr>"

text \<open>The store that carries out every call.\<close>

definition all_done :: answers where
  "all_done c = Done"

subsection \<open>Listing the sales\<close>

text \<open>
  \<^verbatim>\<open>GET /api/sales\<close> selects \<^verbatim>\<open>*, sale_items(*, products(*)), customers(*)\<close> from the
  sales of the user: each sale comes with its items, each item with the product it refers
  to, and the sale with the customer it refers to.  The embedded rows are found through
  the references alone; the only filter of the query is the owner of the sale.
\<close>

record sale_item_view =
  iv_item :: sale_item
  iv_products :: "product option"

record sale_view =
  v_sale :: sale
  v_sale_items :: "sale_item_view list"
  v_customers :: "customer option"

definition embed_sale :: "store \<Rightarrow> sale \<Rightarrow> sale_view" where
  "embed_sale s x =
     \<lparr>v_sale = x,
      v_sale_items =
        map (\<lambda>i. \<lparr>iv_item = i, iv_products = find (\<lambda>p. p_id p = si_product_id i) (products s)\<rparr>)
          (filter (\<lambda>i. si_sale_id i = s_id x) (sale_items s)),
      v_customers =
        (case s_customer_id x of
           None \<Rightarrow> None
         | Some c \<Rightarrow> find (\<lambda>k. c_id k = c) (customers s))\<rparr>"

text \<open>\<^verbatim>\<open>.order('sale_date', desc=True)\<close>: newest first.\<close>

definition get_sales :: "answers \<Rightarrow> string option \<Rightarrow> store \<Rightarrow> sale_view list response" where
  "get_sales ans auth s =
     (case auth of
        None \<Rightarrow> Err 401 ''No autorizado''
      | Some uid \<Rightarrow>
          (case ans SelectSales of
             Raises m \<Rightarrow> Err 500 ''Error obteniendo ventas''
           | NoRows \<Rightarrow> Ok200 []
           | Done \<Rightarrow>
               Ok200 (map (embed_sale s)
                        (sort_key (\<lambda>x. - int (s_sale_date x))
                           (filter (\<lambda>x. s_user_id x = uid) (sales s))))))"

subsection \<open>Creating a product\<close>

text \<open>
  The scalar JSON values a client can send for \<^verbatim>\<open>price\<close>, \<^verbatim>\<open>stock\<close> and
  \<^verbatim>\<open>low_stock_alert\<close>; the handler passes them through \<^verbatim>\<open>float()\<close> and \<^verbatim>\<open>int()\<close>.
  \<open>None\<close> is an absent key.
\<close>

datatype jval = JNull | JBool bool | JNum rat | JStr string

record product_request =
  q_name :: "string field"
  q_price :: "jval option"
  q_stock :: "jval option"
  q_category :: "string field"
  q_low_stock_alert :: "jval option"

text \<open>
  Python's \<^verbatim>\<open>float\<close> and \<^verbatim>\<open>int\<close> on a string are not part of the repository: the
  handler is stated for any pair of readers, \<open>None\<close> standing for \<^verbatim>\<open>ValueError\<close>.
\<close>

record builtins =
  float_of_str :: "string \<Rightarrow> rat option"
  int_of_str :: "string \<Rightarrow> int option"

text \<open>\<^verbatim>\<open>not data.get(key)\<close> is the negation of this test.\<close>

definition truthy :: "jval option \<Rightarrow> bool" where
  "truthy v =
     (case v of
        None \<Rightarrow> False
      | Some JNull \<Rightarrow> False
      | Some (JBool b) \<Rightarrow> b
      | Some (JNum r) \<Rightarrow> r \<noteq> 0
      | Some (JStr str) \<Rightarrow> str \<noteq> [])"

text \<open>
  \<^verbatim>\<open>float\<close> on a JSON number.  A float is returned as it is.  An integer is rounded to
  the nearest double, a tie to the even significand of 53 bits, and \<^verbatim>\<open>float\<close> raises
  \<^verbatim>\<open>OverflowError\<close> (\<open>None\<close>) when that double does not exist, which is from
  \<open>2 ^ 1024 - 2 ^ 970\<close> on.  \<open>bitlen a\<close> is \<^verbatim>\<open>a.bit_length()\<close>.  A number with a
  fraction can only be a float; one without is rounded as an integer, which leaves a
  float as it is.
\<close>

definition float_int :: "int \<Rightarrow> rat option" where
  "float_int n =
     (let a = \<bar>n\<bar>;
          e = nat (bitlen a - 53);
          q = a div 2 ^ e;
          r = a mod 2 ^ e;
          m = (if 2 ^ e < 2 * r \<or> (2 * r = 2 ^ e \<and> odd q) then q + 1 else q)
      in if 2 ^ 1024 \<le> m * 2 ^ e then None
         else Some (of_int (sgn n * (m * 2 ^ e))))"

definition float_num :: "rat \<Rightarrow> rat option" where
  "float_num r = (if r = of_int \<lfloor>r\<rfloor> then float_int \<lfloor>r\<rfloor> else Some r)"

text \<open>\<^verbatim>\<open>float(v)\<close> and \<^verbatim>\<open>int(v)\<close>; \<open>None\<close> when they raise.\<close>

definition py_float :: "builtins \<Rightarrow> jval \<Rightarrow> rat option" where
  "py_float py v =
     (case v of
        JNull \<Rightarrow> None
      | JBool b \<Rightarrow> Some (if b then 1 else 0)
      | JNum r \<Rightarrow> float_num r
      | JStr str \<Rightarrow> float_of_str py str)"

definition py_int :: "builtins \<Rightarrow> jval \<Rightarrow> int option" where
  "py_int py v =
     (case v of
        JNull \<Rightarrow> None
      | JBool b \<Rightarrow> Some (if b then 1 else 0)
      | JNum r \<Rightarrow> Some (if 0 \<le> r then \<lfloor>r\<rfloor> else \<lceil>r\<rceil>)
      | JStr str \<Rightarrow> int_of_str py str)"

text \<open>\<^verbatim>\<open>data.get('category', '')\<close>\<close>

definition category_of :: "string field \<Rightarrow> string option" where
  "category_of f = (case f of Absent \<Rightarrow> Some [] | Null \<Rightarrow> None | Val c \<Rightarrow> Some c)"

text \<open>\<^verbatim>\<open>products.insert(product_data)\<close>\<close>

definition insert_product :: "outcome \<Rightarrow> string \<Rightarrow> rat \<Rightarrow> int \<Rightarrow> string option \<Rightarrow> int \<Rightarrow> string \<Rightarrow> store \<Rightarrow> product reply \<times> store" where
  "insert_product out name price stock category low_stock_alert uid s =
     (case out of
        Raises m \<Rightarrow> (Exception m, s)
      | NoRows \<Rightarrow> (Data [], s)
      | Done \<Rightarrow>
          (let row = \<lparr>p_id = new_id (map p_id (products s)), p_user_id = uid, p_name = name,
                      p_price = price, p_stock = stock, p_category = category,
                      p_low_stock_alert = low_stock_alert\<rparr>
           in (Data [row], s\<lparr>products := products s @ [row]\<rparr>)))"

text \<open>
  \<^verbatim>\<open>create_product\<close>, the handler of \<^verbatim>\<open>POST /api/products\<close>.  Any exception, of a
  conversion or of the store, is answered with the same 500.
\<close>

definition create_product :: "builtins \<Rightarrow> answers \<Rightarrow> string option \<Rightarrow> product_request \<Rightarrow> store \<Rightarrow> product response \<times> store" where
  "create_product py ans auth data s =
     (case auth of
        None \<Rightarrow> (Err 401 ''No autorizado'', s)
      | Some uid \<Rightarrow>
          (case q_name data of
             Val name \<Rightarrow>
               (case q_price data of
                  Some price \<Rightarrow>
                    if name = [] \<or> \<not> truthy (Some price)
                    then (Err 400 ''Nombre y precio son requeridos'', s)
                    else
                      (case py_float py price of
                         None \<Rightarrow> (Err 500 ''Error creando producto'', s)
                       | Some price' \<Rightarrow>
                           (case (case q_stock data of None \<Rightarrow> Some 0 | Some v \<Rightarrow> py_int py v) of
                              None \<Rightarrow> (Err 500 ''Error creando producto'', s)
                            | Some stock \<Rightarrow>
                                (case (case q_low_stock_alert data of None \<Rightarrow> Some 5 | Some v \<Rightarrow> py_int py v) of
                                   None \<Rightarrow> (Err 500 ''Error creando producto'', s)
                                 | Some low \<Rightarrow>
                                     (case insert_product (ans InsertProduct) name price' stock
                                             (category_of (q_category data)) low uid s of
                                        (Exception m, s1) \<Rightarrow> (Err 500 ''Error creando producto'', s1)
                                      | (Data [], s1) \<Rightarrow> (Err 400 ''Error creando producto'', s1)
                                      | (Data (row # _), s1) \<Rightarrow> (Ok200 row, s1)))))
                | None \<Rightarrow> (Err 400 ''Nombre y precio son requeridos'', s))
           | _ \<Rightarrow> (Err 400 ''Nombre y precio son requeridos'', s)))"

text \<open>
  Readers for the examples: plain decimal literals, an optional sign, digits and an
  optional fraction.
\<close>

definition digit_val :: "char \<Rightarrow> nat option" where
  "digit_val c = map_of (zip ''0123456789'' [0, 1, 2, 3, 4, 5, 6, 7, 8, 9]) c"

fun digits_val :: "nat \<Rightarrow> string \<Rightarrow> nat option" where
  "digits_val acc [] = Some acc"
| "digits_val acc (c # cs) =
     (case digit_val c of None \<Rightarrow> None | Some d \<Rightarrow> digits_val (10 * acc + d) cs)"

definition unsigned :: "string \<Rightarrow> nat option" where
  "unsigned str = (if str = [] then None else digits_val 0 str)"

definition decimal_int :: "string \<Rightarrow> int option" where
  "decimal_int str =
     (if str \<noteq> [] \<and> hd str = CHR ''-'' then map_option (\<lambda>n. - int n) (unsigned (tl str))
      else if str \<noteq> [] \<and> hd str = CHR ''+'' then map_option int (unsigned (tl str))
      else map_option int (unsigned str))"

definition unsigned_decimal :: "string \<Rightarrow> rat option" where
  "unsigned_decimal str =
     (let whole = takeWhile (\<lambda>c. c \<noteq> CHR ''.'') str;
          rest = dropWhile (\<lambda>c. c \<noteq> CHR ''.'') str
      in if rest = [] then map_option of_nat (unsigned whole)
         else
           (case (unsigned whole, unsigned (tl rest)) of
              (Some w, Some f) \<Rightarrow> Some (of_nat w + of_nat f / 10 ^ length (tl rest))
            | _ \<Rightarrow> None))"

definition decimal_float :: "string \<Rightarrow> rat option" where
  "decimal_float str =
     (if str \<noteq> [] \<and> hd str = CHR ''-'' then map_option uminus (unsigned_decimal (tl str))
      else if str \<noteq> [] \<and> hd str = CHR ''+'' then unsigned_decimal (tl str)
      else unsigned_decimal str)"

definition decimal :: builtins where
  "decimal = \<lparr>float_of_str = decimal_float, int_of_str = decimal_int\<rparr>"

definition new_product :: "string \<Rightarrow> jval \<Rightarrow> product_request" where
  "new_product name price =
     \<lparr>q_name = Val name, q_price = Some price, q_stock = None, q_category = Absent,
      q_low_stock_alert = None\<rparr>"

section \<open>Properties\<close>

text \<open>The definitions to unfold when a handler is evaluated on the sample store.\<close>

lemmas sample_defs = exact_def cafe_def te_def mate_def luz_def raul_def shop_def line_def order_def all_done_def

lemmas store_defs = select_product_def insert_sale_def insert_sale_item_def update_stock_def
  delete_sale_def delete_sale_items_def new_id_def Let_def

lemmas sale_defs = create_sale_def check_item_def customer_ref_def

lemmas request_defs = catalog_product_def requested_product_def requested_quantity_def
  effective_unit_price_def sale_total_def

lemmas format_defs = str_int_def str_nat.simps digit_def insufficient_stock_def item_required_def

lemmas product_defs = create_product_def truthy_def py_float_def float_num_def py_int_def category_of_def
  insert_product_def new_product_def decimal_def decimal_float_def unsigned_decimal_def
  decimal_int_def unsigned_def digit_val_def

subsection \<open>The top products report\<close>

lemma map_of_add_sale:
  "map_of (add_sale ar n q r xs) m =
     (if m = n then Some (case map_of xs n of None \<Rightarrow> (q, num_add ar 0 r) | Some (q', r') \<Rightarrow> (q' + q, num_add ar r' r))
      else map_of xs m)"
  by (induction xs) auto

lemma keys_add_sale:
  "map fst (add_sale ar n q r xs) = (if n \<in> fst ` set xs then map fst xs else map fst xs @ [n])"
  by (induction xs) force+

lemma set_keys_add_sale: "fst ` set (add_sale ar n q r xs) = insert n (fst ` set xs)"
proof -
  have "fst ` set (add_sale ar n q r xs) = set (map fst (add_sale ar n q r xs))" by simp
  also have "\<dots> = insert n (fst ` set xs)" by (auto simp: keys_add_sale)
  finally show ?thesis .
qed

lemma distinct_add_sale:
  "distinct (map fst xs) \<Longrightarrow> distinct (map fst (add_sale ar n q r xs))"
  by (simp add: keys_add_sale)

lemma distinct_product_sales:
  "distinct (map fst acc) \<Longrightarrow> distinct (map fst (product_sales ar acc rows))"
  by (induction rows arbitrary: acc) (simp_all add: distinct_add_sale)

lemma keys_product_sales:
  "fst ` set (product_sales ar acc rows) = fst ` set acc \<union> product_name ` set rows"
  by (induction rows arbitrary: acc) (simp_all add: set_keys_add_sale)

lemma acc_sums_add_sale:
  "acc_sums (add_sale ar n q r acc) m =
     (if m = n then (fst (acc_sums acc n) + q, num_add ar (snd (acc_sums acc n)) r) else acc_sums acc m)"
  by (auto simp: acc_sums_def map_of_add_sale split: option.splits)

lemma sums_product_sales:
  "acc_sums (product_sales ar acc rows) n =
     (fst (acc_sums acc n) + total_quantity rows n,
      foldl (num_add ar) (snd (acc_sums acc n))
        (map (\<lambda>r. num_mul ar (rr_unit_price r) (rr_quantity r))
           (filter (\<lambda>r. product_name r = n) rows)))"
proof (induction rows arbitrary: acc)
  case Nil
  then show ?case by (simp add: total_quantity_def)
next
  case (Cons item rows)
  show ?case
    by (simp add: Cons.IH acc_sums_add_sale total_quantity_def)
qed

lemma entry_product_sales:
  assumes "(n, q, r) \<in> set (product_sales ar [] rows)"
  shows "q = total_quantity rows n \<and> r = total_revenue ar rows n"
proof -
  have "distinct (map fst (product_sales ar [] rows))"
    by (rule distinct_product_sales) simp
  with assms have "map_of (product_sales ar [] rows) n = Some (q, r)"
    by simp
  then have "acc_sums (product_sales ar [] rows) n = (q, r)"
    by (simp add: acc_sums_def)
  moreover have "acc_sums (product_sales ar [] rows) n = (total_quantity rows n, total_revenue ar rows n)"
    by (simp add: sums_product_sales total_revenue_def) (simp add: acc_sums_def)
  ultimately show ?thesis
    by simp
qed

lemma set_first_seen: "set (first_seen xs) = set xs"
  by (induction xs rule: first_seen.induct) auto

lemma distinct_first_seen: "distinct (first_seen xs)"
  by (induction xs rule: first_seen.induct) (auto simp: set_first_seen)

lemma length_first_seen: "length (first_seen xs) = card (set xs)"
  using distinct_card [OF distinct_first_seen, of xs] by (simp add: set_first_seen)

lemma keys_order:
  "map fst (product_sales ar acc rows)
     = map fst acc @ first_seen (filter (\<lambda>n. n \<notin> fst ` set acc) (map product_name rows))"
proof (induction rows arbitrary: acc)
  case Nil
  then show ?case by simp
next
  case (Cons item rows)
  let ?n = "product_name item"
  let ?acc = "add_sale ar ?n (rr_quantity item) (num_mul ar (rr_unit_price item) (rr_quantity item)) acc"
  have step: "map fst (product_sales ar acc (item # rows))
      = map fst ?acc @ first_seen (filter (\<lambda>n. n \<notin> fst ` set ?acc) (map product_name rows))"
    by (simp add: Cons.IH)
  show ?case
  proof (cases "?n \<in> fst ` set acc")
    case True
    then have "insert ?n (fst ` set acc) = fst ` set acc" by auto
    with True step show ?thesis
      by (simp add: keys_add_sale set_keys_add_sale)
  next
    case False
    have "filter (\<lambda>n. n \<noteq> ?n \<and> n \<notin> fst ` set acc) (map product_name rows)
        = filter (\<lambda>y. y \<noteq> ?n) (filter (\<lambda>n. n \<notin> fst ` set acc) (map product_name rows))"
      by (simp add: conj_commute)
    with False step show ?thesis
      by (simp add: keys_add_sale set_keys_add_sale)
  qed
qed

lemma entries_from_keys:
  "(\<forall>(n, q, r)\<in>set xs. q = Q n \<and> r = R n) \<Longrightarrow> xs = map (\<lambda>n. (n, Q n, R n)) (map fst xs)"
  by (induction xs) auto

lemma product_sales_groups:
  "product_sales ar [] rows
     = map (\<lambda>n. (n, total_quantity rows n, total_revenue ar rows n)) (first_seen (map product_name rows))"
proof -
  have "\<forall>(n, q, r)\<in>set (product_sales ar [] rows). q = total_quantity rows n \<and> r = total_revenue ar rows n"
    using entry_product_sales by blast
  from entries_from_keys [OF this] show ?thesis
    by (simp add: keys_order)
qed

lemma top_products_list_spec: "top_products_list ar rows = spec_top_products ar rows"
proof -
  have "group_entry ar rows
      = (\<lambda>n. \<lparr>te_name = n, te_quantity = total_quantity rows n, te_revenue = total_revenue ar rows n\<rparr>)"
    by (simp add: fun_eq_iff group_entry_def)
  then show ?thesis
    by (simp add: top_products_list_def spec_top_products_def product_sales_groups comp_def)
qed

lemma top_products_list_take: "top_products_list ar rows = take 10 (all_entries ar rows)"
  by (simp add: top_products_list_def all_entries_def)

lemma length_all_entries: "length (all_entries ar rows) = card (product_name ` set rows)"
  by (simp add: all_entries_def product_sales_groups length_first_seen)

lemma set_all_entries:
  "set (all_entries ar rows) = (\<lambda>(n, q, r). \<lparr>te_name = n, te_quantity = q, te_revenue = r\<rparr>) ` set (product_sales ar [] rows)"
  by (simp add: all_entries_def)

lemma all_entries_sums:
  assumes "e \<in> set (all_entries ar rows)"
  shows "te_name e \<in> product_name ` set rows \<and> te_quantity e = total_quantity rows (te_name e) \<and> te_revenue e = total_revenue ar rows (te_name e)"
proof -
  from assms obtain n q r where in_ps: "(n, q, r) \<in> set (product_sales ar [] rows)"
    and e: "e = \<lparr>te_name = n, te_quantity = q, te_revenue = r\<rparr>"
    by (auto simp: set_all_entries)
  from in_ps have "n \<in> fst ` set (product_sales ar [] rows)" by force
  then have "n \<in> product_name ` set rows" by (simp add: keys_product_sales)
  with entry_product_sales [OF in_ps] e show ?thesis by simp
qed

lemma all_entries_names: "te_name ` set (all_entries ar rows) = product_name ` set rows"
proof -
  have "te_name ` set (all_entries ar rows) = fst ` set (product_sales ar [] rows)"
    by (force simp: set_all_entries)
  then show ?thesis by (simp add: keys_product_sales)
qed

lemma sorted_all_entries: "sorted_wrt (\<lambda>a b. te_quantity b \<le> te_quantity a) (all_entries ar rows)"
proof -
  have "sorted (map (\<lambda>e. - te_quantity e) (all_entries ar rows))"
    unfolding all_entries_def by (rule sorted_sort_key)
  then show ?thesis by (simp add: sorted_map)
qed

lemma beyond_top:
  assumes "r \<in> set rows"
  shows "product_name r \<in> te_name ` set (top_products_list ar rows) \<or>
         (\<forall>e \<in> set (top_products_list ar rows). total_quantity rows (product_name r) \<le> te_quantity e)"
proof -
  from assms have "product_name r \<in> te_name ` set (all_entries ar rows)"
    by (simp add: all_entries_names)
  then obtain d where d: "d \<in> set (all_entries ar rows)" "te_name d = product_name r" by auto
  have split: "all_entries ar rows = top_products_list ar rows @ drop 10 (all_entries ar rows)"
    by (simp add: top_products_list_take)
  show ?thesis
  proof (cases "d \<in> set (top_products_list ar rows)")
    case True
    with d show ?thesis by force
  next
    case False
    with d split have "d \<in> set (drop 10 (all_entries ar rows))"
      by (metis Un_iff set_append)
    moreover have "sorted_wrt (\<lambda>a b. te_quantity b \<le> te_quantity a) (top_products_list ar rows @ drop 10 (all_entries ar rows))"
      using sorted_all_entries [of ar rows] split by simp
    ultimately have "\<forall>e \<in> set (top_products_list ar rows). te_quantity d \<le> te_quantity e"
      by (simp add: sorted_wrt_append)
    with all_entries_sums [OF d(1)] d(2) show ?thesis by simp
  qed
qed

text \<open>
  Claim C8.  \<^verbatim>\<open>top_products\<close> answers with the list that the specification describes:
  one group per product name of the fetched rows, in the order of their first rows,
  holding the sum of the quantities and the revenue (quantity times unit price, added up
  row by row) of the rows of that name; the groups sorted by descending quantity; the
  first ten of them.  So the report has as many entries as there are names, up to ten,
  it is in descending order of quantity, and a name that is left out has a total
  quantity no larger than that of any entry returned.  Over the items (A, 2, 10),
  (B, 1, 5), (A, 1, 10) the report is A with quantity 3 and revenue 30, then B with
  quantity 1 and revenue 5.
\<close>

theorem top_products_report:
  "top_products ar (Some uid) (Data rows) = Ok200 (top_products_list ar rows)
   \<and> top_products_list ar rows = spec_top_products ar rows
   \<and> length (top_products_list ar rows) = min 10 (card (product_name ` set rows))
   \<and> sorted_wrt (\<lambda>a b. te_quantity b \<le> te_quantity a) (top_products_list ar rows)
   \<and> (\<forall>r \<in> set rows.
         product_name r \<in> te_name ` set (top_products_list ar rows)
         \<or> (\<forall>e \<in> set (top_products_list ar rows). total_quantity rows (product_name r) \<le> te_quantity e))
   \<and> top_products_list exact
        [\<lparr>rr_quantity = 2, rr_unit_price = 10, rr_products = Some ''A''\<rparr>,
         \<lparr>rr_quantity = 1, rr_unit_price = 5, rr_products = Some ''B''\<rparr>,
         \<lparr>rr_quantity = 1, rr_unit_price = 10, rr_products = Some ''A''\<rparr>]
       = [\<lparr>te_name = ''A'', te_quantity = 3, te_revenue = 30\<rparr>,
          \<lparr>te_name = ''B'', te_quantity = 1, te_revenue = 5\<rparr>]"
proof (intro conjI ballI)
  show "top_products ar (Some uid) (Data rows) = Ok200 (top_products_list ar rows)"
    by (simp add: top_products_def)
  show "top_products_list ar rows = spec_top_products ar rows"
    by (rule top_products_list_spec)
  show "length (top_products_list ar rows) = min 10 (card (product_name ` set rows))"
    by (simp add: top_products_list_take length_all_entries min.commute)
  show "sorted_wrt (\<lambda>a b. te_quantity b \<le> te_quantity a) (top_products_list ar rows)"
    unfolding top_products_list_take by (rule sorted_wrt_take) (rule sorted_all_entries)
next
  fix r assume "r \<in> set rows"
  then show "product_name r \<in> te_name ` set (top_products_list ar rows)
         \<or> (\<forall>e \<in> set (top_products_list ar rows). total_quantity rows (product_name r) \<le> te_quantity e)"
    by (rule beyond_top)
next
  show "top_products_list exact
        [\<lparr>rr_quantity = 2, rr_unit_price = 10, rr_products = Some ''A''\<rparr>,
         \<lparr>rr_quantity = 1, rr_unit_price = 5, rr_products = Some ''B''\<rparr>,
         \<lparr>rr_quantity = 1, rr_unit_price = 10, rr_products = Some ''A''\<rparr>]
       = [\<lparr>te_name = ''A'', te_quantity = 3, te_revenue = 30\<rparr>,
          \<lparr>te_name = ''B'', te_quantity = 1, te_revenue = 5\<rparr>]"
    by (simp add: top_products_list_def product_name_def exact_def)
qed

text \<open>
  The report on a sample answer.  One of its rows has no product, so its group is the
  unknown product; the groups are read off the theorem through the specification.
\<close>

theorem top_products_report_witness:
  "top_products exact (Some ''u1'') (Data rows3)
     = Ok200 [\<lparr>te_name = ''A'', te_quantity = 6, te_revenue = 22\<rparr>,
              \<lparr>te_name = ''Producto desconocido'', te_quantity = 1, te_revenue = 5\<rparr>]
   \<and> spec_top_products exact rows3
     = [\<lparr>te_name = ''A'', te_quantity = 6, te_revenue = 22\<rparr>,
        \<lparr>te_name = ''Producto desconocido'', te_quantity = 1, te_revenue = 5\<rparr>]
   \<and> card (product_name ` set rows3) = 2"
proof -
  have spec: "spec_top_products exact rows3
     = [\<lparr>te_name = ''A'', te_quantity = 6, te_revenue = 22\<rparr>,
        \<lparr>te_name = ''Producto desconocido'', te_quantity = 1, te_revenue = 5\<rparr>]"
    by (simp add: spec_top_products_def group_entry_def total_quantity_def total_revenue_def
        product_name_def rows3_def exact_def)
  from top_products_report [of exact "''u1''" rows3]
  have a: "top_products exact (Some ''u1'') (Data rows3) = Ok200 (top_products_list exact rows3)"
    and b: "top_products_list exact rows3 = spec_top_products exact rows3"
    and c: "length (top_products_list exact rows3) = min 10 (card (product_name ` set rows3))"
    by blast+
  from c have "min 10 (card (product_name ` set rows3)) = 2"
    unfolding b spec by simp
  then have "card (product_name ` set rows3) = 2"
    by (simp add: min_def split: if_splits)
  with a b spec show ?thesis by simp
qed

subsection \<open>The validation loop\<close>

lemma check_item_Inr:
  assumes "check_item ans uid s i item = Inr p"
  shows "i_product_id item = Val (ip_product_id p)"
    and "i_quantity item = Val (ip_quantity p)"
    and "ip_product_id p \<noteq> 0"
    and "ip_quantity p \<noteq> 0"
    and "\<exists>rest. filter (\<lambda>x. p_id x = ip_product_id p \<and> p_user_id x = uid) (products s) = ip_product p # rest"
    and "ip_quantity p \<le> p_stock (ip_product p)"
    and "ip_unit_price p = (case i_unit_price item of Val up \<Rightarrow> up | _ \<Rightarrow> p_price (ip_product p))"
    and "ans (SelectProduct i) = Done"
  using assms
  by (auto simp: check_item_def select_product_def
      split: field.splits if_splits outcome.splits list.splits)

lemma check_item_product:
  assumes "check_item ans uid s i item = Inr p"
  shows "ip_product p \<in> set (products s)" "p_id (ip_product p) = ip_product_id p"
    "p_user_id (ip_product p) = uid"
proof -
  from check_item_Inr(5) [OF assms] obtain rest where
    f: "filter (\<lambda>x. p_id x = ip_product_id p \<and> p_user_id x = uid) (products s) = ip_product p # rest"
    by blast
  then have "ip_product p \<in> set (filter (\<lambda>x. p_id x = ip_product_id p \<and> p_user_id x = uid) (products s))"
    by simp
  then show "ip_product p \<in> set (products s)" "p_id (ip_product p) = ip_product_id p"
    "p_user_id (ip_product p) = uid"
    by simp_all
qed

lemma checked_request:
  assumes "check_item ans uid s i item = Inr p"
  shows "requested_product item = ip_product_id p"
    and "requested_quantity item = ip_quantity p"
    and "catalog_product uid s (requested_product item) = Some (ip_product p)"
proof -
  from check_item_Inr(1,2) [OF assms]
  show 1: "requested_product item = ip_product_id p" and "requested_quantity item = ip_quantity p"
    by (simp_all add: requested_product_def requested_quantity_def)
  from check_item_Inr(5) [OF assms] 1
  show "catalog_product uid s (requested_product item) = Some (ip_product p)"
    by (auto simp: catalog_product_def)
qed

lemma check_item_understocked:
  assumes "understocked uid s item"
  shows "\<exists>e. check_item ans uid s i item = Inl e"
  using assms
  by (auto simp: understocked_def check_item_def select_product_def catalog_product_def
      split: field.splits outcome.splits list.splits option.splits)

lemma check_item_understocked_exact:
  assumes "understocked uid s item" "requested_product item \<noteq> 0" "requested_quantity item \<noteq> 0"
    "ans (SelectProduct i) = Done"
  shows "\<exists>p. catalog_product uid s (requested_product item) = Some p
           \<and> check_item ans uid s i item = Inl (400, insufficient_stock p)"
  using assms
  by (auto simp: understocked_def check_item_def select_product_def catalog_product_def
        requested_product_def requested_quantity_def insufficient_stock_def
      split: field.splits list.splits option.splits)

lemma check_item_lacking:
  assumes "lacks_reference item \<or> lacks_quantity item"
  shows "check_item ans uid s i item = Inl (400, item_required)"
  using assms
  by (auto simp: lacks_reference_def lacks_quantity_def check_item_def split: field.splits)

lemma check_items_Inr:
  "check_items ar ans uid s i tot acc items = Inr (t, es) \<Longrightarrow>
     \<exists>es'. es = acc @ es' \<and> length es' = length items
        \<and> t = foldl (num_add ar) tot (map (line_total ar) es')
        \<and> (\<forall>j<length items. check_item ans uid s (i + j) (items ! j) = Inr (es' ! j))"
proof (induction items arbitrary: i tot acc)
  case Nil
  then show ?case by simp
next
  case (Cons item items)
  from Cons.prems obtain p where p: "check_item ans uid s i item = Inr p"
    by (cases "check_item ans uid s i item") simp_all
  with Cons.prems have rest: "check_items ar ans uid s (Suc i) (num_add ar tot (num_mul ar (ip_unit_price p) (ip_quantity p))) (acc @ [p]) items = Inr (t, es)"
    by simp
  from Cons.IH [OF rest] obtain es' where es': "es = (acc @ [p]) @ es'" "length es' = length items"
    "t = foldl (num_add ar) (num_add ar tot (num_mul ar (ip_unit_price p) (ip_quantity p))) (map (line_total ar) es')"
    "\<forall>j<length items. check_item ans uid s (Suc i + j) (items ! j) = Inr (es' ! j)"
    by blast
  have "\<forall>j<length (item # items). check_item ans uid s (i + j) ((item # items) ! j) = Inr ((p # es') ! j)"
  proof (intro allI impI)
    fix j assume "j < length (item # items)"
    then show "check_item ans uid s (i + j) ((item # items) ! j) = Inr ((p # es') ! j)"
      using p es'(4) by (cases j) auto
  qed
  moreover have "line_total ar p = num_mul ar (ip_unit_price p) (ip_quantity p)"
    by (simp add: line_total_def)
  ultimately show ?case using es'(1-3)
    by (intro exI [of _ "p # es'"]) simp
qed

lemma check_items_first_failure:
  "k < length items \<Longrightarrow>
   (\<forall>j<k. \<exists>p. check_item ans uid s (i + j) (items ! j) = Inr p) \<Longrightarrow>
   check_item ans uid s (i + k) (items ! k) = Inl e \<Longrightarrow>
   check_items ar ans uid s i tot acc items = Inl e"
proof (induction items arbitrary: i k tot acc)
  case Nil
  then show ?case by simp
next
  case (Cons item items)
  show ?case
  proof (cases k)
    case 0
    with Cons.prems show ?thesis by simp
  next
    case (Suc k')
    from Suc have "0 < k" by simp
    with Cons.prems(2) have "\<exists>p. check_item ans uid s (i + 0) ((item # items) ! 0) = Inr p"
      by blast
    then obtain p where p: "check_item ans uid s i item = Inr p"
      by auto
    have "check_items ar ans uid s (Suc i) (num_add ar tot (num_mul ar (ip_unit_price p) (ip_quantity p))) (acc @ [p]) items = Inl e"
    proof (rule Cons.IH [of k'])
      show "k' < length items" using Cons.prems(1) Suc by simp
      show "\<forall>j<k'. \<exists>p. check_item ans uid s (Suc i + j) (items ! j) = Inr p"
      proof (intro allI impI)
        fix j assume "j < k'"
        then have "Suc j < k" using Suc by simp
        with Cons.prems(2) have "\<exists>p. check_item ans uid s (i + Suc j) ((item # items) ! Suc j) = Inr p"
          by blast
        then show "\<exists>p. check_item ans uid s (Suc i + j) (items ! j) = Inr p" by simp
      qed
      show "check_item ans uid s (Suc i + k') (items ! k') = Inl e"
        using Cons.prems(3) Suc by simp
    qed
    with p show ?thesis by simp
  qed
qed

lemma check_items_some_failure:
  "k < length items \<Longrightarrow> check_item ans uid s (i + k) (items ! k) = Inl e \<Longrightarrow>
   \<exists>e'. check_items ar ans uid s i tot acc items = Inl e'"
proof (induction items arbitrary: i k tot acc)
  case Nil
  then show ?case by simp
next
  case (Cons item items)
  show ?case
  proof (cases "check_item ans uid s i item")
    case (Inl a)
    then show ?thesis by simp
  next
    case (Inr p)
    show ?thesis
    proof (cases k)
      case 0
      with Cons.prems Inr show ?thesis by simp
    next
      case (Suc k')
      with Cons.prems have "k' < length items" "check_item ans uid s (Suc i + k') (items ! k') = Inl e"
        by simp_all
      from Cons.IH [OF this] Inr show ?thesis by simp
    qed
  qed
qed

lemma checked_products:
  assumes "check_items ar ans uid s 0 0 [] items = Inr (tot, es)" and "e \<in> set es"
  shows "ip_product e \<in> set (products s)" "p_id (ip_product e) = ip_product_id e"
proof -
  from check_items_Inr [OF assms(1)] have len: "length es = length items"
    and each: "\<forall>j<length items. check_item ans uid s j (items ! j) = Inr (es ! j)"
    by auto
  from assms(2) obtain j where j: "j < length es" "es ! j = e" by (auto simp: in_set_conv_nth)
  with len each have "check_item ans uid s j (items ! j) = Inr e" by auto
  from check_item_product [OF this]
  show "ip_product e \<in> set (products s)" "p_id (ip_product e) = ip_product_id e" by simp_all
qed

lemma line_total_effective:
  assumes "check_item ans uid s i item = Inr p"
  shows "line_total ar p = num_mul ar (effective_unit_price uid s item) (requested_quantity item)"
proof -
  from check_item_Inr(5) [OF assms] obtain rest where
    "filter (\<lambda>x. p_id x = ip_product_id p \<and> p_user_id x = uid) (products s) = ip_product p # rest"
    by blast
  then have "catalog_product uid s (ip_product_id p) = Some (ip_product p)"
    by (simp add: catalog_product_def)
  with check_item_Inr(1,2,7) [OF assms] show ?thesis
    by (simp add: line_total_def effective_unit_price_def requested_quantity_def split: field.splits)
qed

lemma check_items_total:
  assumes "check_items ar ans uid s 0 0 [] items = Inr (tot, es)"
  shows "tot = sale_total ar uid s items"
proof -
  from check_items_Inr [OF assms] have len: "length es = length items"
    and tot: "tot = foldl (num_add ar) 0 (map (line_total ar) es)"
    and each: "\<forall>j<length items. check_item ans uid s j (items ! j) = Inr (es ! j)"
    by auto
  have "map (line_total ar) es
      = map (\<lambda>item. num_mul ar (effective_unit_price uid s item) (requested_quantity item)) items"
  proof (rule nth_equalityI)
    show "length (map (line_total ar) es) = length (map (\<lambda>item. num_mul ar (effective_unit_price uid s item) (requested_quantity item)) items)"
      using len by simp
  next
    fix j assume "j < length (map (line_total ar) es)"
    then have j: "j < length items" using len by simp
    with each have "check_item ans uid s j (items ! j) = Inr (es ! j)" by blast
    from line_total_effective [OF this, of ar] j len
    show "map (line_total ar) es ! j = map (\<lambda>item. num_mul ar (effective_unit_price uid s item) (requested_quantity item)) items ! j"
      by simp
  qed
  with tot show ?thesis by (simp add: sale_total_def)
qed

subsection \<open>The second loop\<close>

lemma fold_max_ge: "(x::nat) \<in> set xs \<or> x \<le> a \<Longrightarrow> x \<le> fold max xs a"
proof (induction xs arbitrary: a)
  case Nil
  then show ?case by simp
next
  case (Cons y ys)
  from Cons.prems have "x \<in> set ys \<or> x \<le> max y a"
    by (cases "x = y") (simp_all add: le_max_iff_disj, blast)
  from Cons.IH [OF this] show ?case by simp
qed

lemma new_id_fresh: "x \<in> set ids \<Longrightarrow> x < new_id ids"
  using fold_max_ge [of x ids 0] by (simp add: new_id_def)

lemma set_stock_ids: "map p_id (set_stock pid n ps) = map p_id ps"
  by (induction ps) (simp_all add: set_stock_def)

lemma apply_item_fields:
  "map p_id (products (apply_item sid e s)) = map p_id (products s)"
  "sales (apply_item sid e s) = sales s"
  "customers (apply_item sid e s) = customers s"
  "clock (apply_item sid e s) = clock s"
  "sale_items (apply_item sid e s) = sale_items s @ [item_row sid e]"
  "products (apply_item sid e s) =
     set_stock (p_id (ip_product e)) (p_stock (ip_product e) - ip_quantity e) (products s)"
  by (simp_all add: apply_item_def set_stock_ids)

lemma apply_items_Cons: "apply_items sid (e # es) s = apply_items sid es (apply_item sid e s)"
  by (simp add: apply_items_def)

lemma apply_items_Nil: "apply_items sid [] s = s"
  by (simp add: apply_items_def)

lemma apply_items_snoc: "apply_items sid (es @ [e]) s = apply_item sid e (apply_items sid es s)"
  by (simp add: apply_items_def)

lemma apply_items_fields:
  "map p_id (products (apply_items sid es s)) = map p_id (products s)"
  "sales (apply_items sid es s) = sales s"
  "customers (apply_items sid es s) = customers s"
  "clock (apply_items sid es s) = clock s"
  "sale_items (apply_items sid es s) = sale_items s @ map (item_row sid) es"
  by (induction es arbitrary: s) (simp_all add: apply_items_Nil apply_items_Cons apply_item_fields set_stock_ids)

lemma update_stock_Done:
  assumes "pid \<in> p_id ` set (products s)"
  obtains r rs where
    "update_stock Done pid n s = (Data (r # rs), s\<lparr>products := set_stock pid n (products s)\<rparr>)"
proof -
  from assms have "filter (\<lambda>p. p_id p = pid) (products s) \<noteq> []"
    by (auto simp: filter_empty_conv)
  then obtain r rs where "map (\<lambda>p. p\<lparr>p_stock := n\<rparr>) (filter (\<lambda>p. p_id p = pid) (products s)) = r # rs"
    by (cases "filter (\<lambda>p. p_id p = pid) (products s)") auto
  then have "update_stock Done pid n s = (Data (r # rs), s\<lparr>products := set_stock pid n (products s)\<rparr>)"
    by (simp add: update_stock_def set_stock_def)
  then show ?thesis ..
qed

lemma process_step:
  assumes "ans (InsertSaleItem i) = Done" "ans (UpdateStock i) = Done"
    and "p_id (ip_product e) \<in> p_id ` set (products s)"
  shows "process_items ans sid i (e # es) s = process_items ans sid (Suc i) es (apply_item sid e s)"
proof -
  let ?s1 = "s\<lparr>sale_items := sale_items s @ [item_row sid e]\<rparr>"
  have ins: "insert_sale_item Done (item_row sid e) s = (Data [item_row sid e], ?s1)"
    by (simp add: insert_sale_item_def)
  from assms(3) have "p_id (ip_product e) \<in> p_id ` set (products ?s1)" by simp
  then obtain r rs where upd: "update_stock Done (p_id (ip_product e)) (p_stock (ip_product e) - ip_quantity e) ?s1
      = (Data (r # rs), ?s1\<lparr>products := set_stock (p_id (ip_product e)) (p_stock (ip_product e) - ip_quantity e) (products ?s1)\<rparr>)"
    by (rule update_stock_Done)
  show ?thesis
    using assms(1,2) ins upd by (simp add: item_row_def apply_item_def)
qed

lemma process_prefix:
  "(\<forall>j<length es1. ans (InsertSaleItem (i + j)) = Done \<and> ans (UpdateStock (i + j)) = Done) \<Longrightarrow>
   (\<forall>e\<in>set es1. p_id (ip_product e) \<in> p_id ` set (products s)) \<Longrightarrow>
   process_items ans sid i (es1 @ es2) s
     = process_items ans sid (i + length es1) es2 (apply_items sid es1 s)"
proof (induction es1 arbitrary: i s)
  case Nil
  then show ?case by (simp add: apply_items_Nil)
next
  case (Cons e es1)
  from Cons.prems(1) have here: "ans (InsertSaleItem i) = Done" "ans (UpdateStock i) = Done"
    by force+
  from Cons.prems(2) have ex: "p_id (ip_product e) \<in> p_id ` set (products s)" by simp
  have later: "\<forall>j<length es1. ans (InsertSaleItem (Suc i + j)) = Done \<and> ans (UpdateStock (Suc i + j)) = Done"
  proof (intro allI impI)
    fix j assume "j < length es1"
    then have "Suc j < length (e # es1)" by simp
    with Cons.prems(1) have "ans (InsertSaleItem (i + Suc j)) = Done \<and> ans (UpdateStock (i + Suc j)) = Done"
      by blast
    then show "ans (InsertSaleItem (Suc i + j)) = Done \<and> ans (UpdateStock (Suc i + j)) = Done" by simp
  qed
  have "set (map p_id (products (apply_item sid e s))) = set (map p_id (products s))"
    by (simp only: apply_item_fields(1))
  with Cons.prems(2) have ids: "\<forall>e'\<in>set es1. p_id (ip_product e') \<in> p_id ` set (products (apply_item sid e s))"
    by simp
  have "process_items ans sid i ((e # es1) @ es2) s = process_items ans sid (Suc i) (es1 @ es2) (apply_item sid e s)"
    using process_step [OF here ex] by simp
  also have "\<dots> = process_items ans sid (Suc i + length es1) es2 (apply_items sid es1 (apply_item sid e s))"
    by (rule Cons.IH [OF later ids])
  finally show ?case by (simp add: apply_items_Cons)
qed

lemma process_insert_no_row:
  assumes "ans (InsertSaleItem i) = NoRows" "ans DeleteSale = Done"
  shows "process_items ans sid i (e # es) s =
     (Some (400, ''Error creando item para '' @ p_name (ip_product e)),
      s\<lparr>sales := filter (\<lambda>x. s_id x \<noteq> sid) (sales s)\<rparr>)"
  using assms by (simp add: insert_sale_item_def delete_sale_def)

lemma process_update_no_row:
  assumes "ans (InsertSaleItem i) = Done" "ans (UpdateStock i) = NoRows"
    "ans DeleteSale = Done" "ans DeleteSaleItems = Done"
  shows "process_items ans sid i (e # es) s =
     (Some (400, ''Error actualizando stock para '' @ p_name (ip_product e)),
      s\<lparr>sale_items := filter (\<lambda>x. si_sale_id x \<noteq> sid) (sale_items s @ [item_row sid e]),
        sales := filter (\<lambda>x. s_id x \<noteq> sid) (sales s)\<rparr>)"
  using assms by (simp add: insert_sale_item_def update_stock_def delete_sale_def delete_sale_items_def item_row_def)

lemma process_insert_raises:
  assumes "ans (InsertSaleItem i) = Raises m"
  shows "process_items ans sid i (e # es) s = (Some (500, internal_error m), s)"
  using assms by (simp add: insert_sale_item_def)

lemma process_None_step:
  assumes "process_items ans sid i (e # es) s = (None, s')"
  shows "ans (InsertSaleItem i) = Done" and "ans (UpdateStock i) = Done"
    and "process_items ans sid (Suc i) es (apply_item sid e s) = (None, s')"
  using assms
  by (auto simp: insert_sale_item_def update_stock_def delete_sale_def delete_sale_items_def
        apply_item_def item_row_def set_stock_def
      split: outcome.splits list.splits)

lemma process_None:
  "process_items ans sid i es s = (None, s') \<Longrightarrow> s' = apply_items sid es s"
proof (induction es arbitrary: i s)
  case Nil
  then show ?case by (simp add: apply_items_Nil)
next
  case (Cons e es)
  from process_None_step(3) [OF Cons.prems]
  have "process_items ans sid (Suc i) es (apply_item sid e s) = (None, s')" .
  from Cons.IH [OF this] show ?case by (simp add: apply_items_Cons)
qed

text \<open>The second loop up to the item at position k, when the calls for the items before it are carried out.\<close>

lemma process_upto:
  assumes chk: "check_items ar ans uid s 0 0 [] items = Inr (tot, es)"
    and k: "k < length items"
    and before: "\<forall>j<k. ans (InsertSaleItem j) = Done \<and> ans (UpdateStock j) = Done"
    and prods: "map p_id (products s1) = map p_id (products s)"
  shows "process_items ans sid 0 es s1
           = process_items ans sid k (es ! k # drop (Suc k) es) (apply_items sid (take k es) s1)"
proof -
  from check_items_Inr [OF chk] have len: "length es = length items" by auto
  with k have split: "es = take k es @ es ! k # drop (Suc k) es"
    by (simp add: id_take_nth_drop)
  have lk: "length (take k es) = k" using k len by simp
  have 1: "\<forall>j<length (take k es). ans (InsertSaleItem (0 + j)) = Done \<and> ans (UpdateStock (0 + j)) = Done"
    using before lk by simp
  have 2: "\<forall>e\<in>set (take k es). p_id (ip_product e) \<in> p_id ` set (products s1)"
  proof
    fix e assume "e \<in> set (take k es)"
    then have "e \<in> set es" by (rule in_set_takeD)
    from checked_products(1) [OF chk this] have "p_id (ip_product e) \<in> set (map p_id (products s))"
      by simp
    then show "p_id (ip_product e) \<in> p_id ` set (products s1)"
      by (simp only: prods [symmetric]) simp
  qed
  have "process_items ans sid 0 (take k es @ es ! k # drop (Suc k) es) s1
      = process_items ans sid (0 + length (take k es)) (es ! k # drop (Suc k) es) (apply_items sid (take k es) s1)"
    by (rule process_prefix [OF 1 2])
  with split lk show ?thesis by simp
qed

lemma sold_id: "p_id (sold es p) = p_id p"
  by (simp add: sold_def split: option.splits)

lemma sold_snoc:
  "sold (es @ [e]) p =
     (if p_id (sold es p) = p_id (ip_product e)
      then (sold es p)\<lparr>p_stock := p_stock (ip_product e) - ip_quantity e\<rparr>
      else sold es p)"
  by (auto simp: sold_def split: option.splits)

lemma products_apply_items: "products (apply_items sid es s) = map (sold es) (products s)"
proof (induction es rule: rev_induct)
  case Nil
  have "\<And>p. sold [] p = p" by (simp add: sold_def)
  then show ?case by (simp add: apply_items_Nil)
next
  case (snoc e es)
  show ?case
    by (simp add: apply_items_snoc apply_item_fields snoc.IH set_stock_def sold_snoc)
qed

lemma find_last:
  "j < length xs \<Longrightarrow> P (xs ! j) \<Longrightarrow> (\<forall>l. j < l \<and> l < length xs \<longrightarrow> \<not> P (xs ! l)) \<Longrightarrow>
   find P (rev xs) = Some (xs ! j)"
proof (induction xs rule: rev_induct)
  case Nil
  then show ?case by simp
next
  case (snoc x xs)
  show ?case
  proof (cases "j = length xs")
    case True
    with snoc.prems(2) show ?thesis by simp
  next
    case False
    with snoc.prems(1) have j: "j < length xs" by simp
    from snoc.prems(3) j have "\<not> P ((xs @ [x]) ! length xs)"
      by (metis length_append_singleton lessI)
    then have nx: "\<not> P x" by simp
    have "find P (rev xs) = Some (xs ! j)"
    proof (rule snoc.IH [OF j])
      from snoc.prems(2) j show "P (xs ! j)" by (simp add: nth_append)
      show "\<forall>l. j < l \<and> l < length xs \<longrightarrow> \<not> P (xs ! l)"
      proof (intro allI impI)
        fix l assume l: "j < l \<and> l < length xs"
        then have "j < l \<and> l < length (xs @ [x])" by simp
        with snoc.prems(3) have "\<not> P ((xs @ [x]) ! l)" by blast
        with l show "\<not> P (xs ! l)" by (simp add: nth_append)
      qed
    qed
    with nx j show ?thesis by (simp add: nth_append)
  qed
qed

lemma sold_last:
  assumes chk: "check_items ar ans uid s 0 0 [] items = Inr (tot, es)"
    and j: "j < k" and k: "k \<le> length items"
    and last: "\<forall>l. j < l \<and> l < k \<longrightarrow> requested_product (items ! l) \<noteq> requested_product (items ! j)"
    and p: "p_id p = requested_product (items ! j)"
  shows "sold (take k es) p = p\<lparr>p_stock := p_stock (ip_product (es ! j)) - requested_quantity (items ! j)\<rparr>"
proof -
  from check_items_Inr [OF chk] have len: "length es = length items"
    and each: "\<forall>i<length items. check_item ans uid s i (items ! i) = Inr (es ! i)"
    by auto
  have entry: "\<And>i. i < k \<Longrightarrow> p_id (ip_product (es ! i)) = requested_product (items ! i)
                  \<and> ip_quantity (es ! i) = requested_quantity (items ! i)"
  proof -
    fix i assume "i < k"
    with k each have c: "check_item ans uid s i (items ! i) = Inr (es ! i)" by simp
    from checked_request(1,2) [OF c] check_item_product(2) [OF c]
    show "p_id (ip_product (es ! i)) = requested_product (items ! i)
          \<and> ip_quantity (es ! i) = requested_quantity (items ! i)" by simp
  qed
  let ?P = "\<lambda>e. p_id (ip_product e) = p_id p"
  have lk: "length (take k es) = k" using k len by simp
  have "find ?P (rev (take k es)) = Some (take k es ! j)"
  proof (rule find_last)
    show "j < length (take k es)" using j lk by simp
    show "?P (take k es ! j)" using j entry [OF j] p by simp
    show "\<forall>l. j < l \<and> l < length (take k es) \<longrightarrow> \<not> ?P (take k es ! l)"
    proof (intro allI impI)
      fix l assume l: "j < l \<and> l < length (take k es)"
      then have lk': "l < k" using lk by simp
      with l last have "requested_product (items ! l) \<noteq> requested_product (items ! j)" by blast
      with entry [OF lk'] p lk' show "\<not> ?P (take k es ! l)" by simp
    qed
  qed
  with j entry [OF j] show ?thesis by (simp add: sold_def)
qed

subsection \<open>The handler of a sale\<close>

lemma insert_sale_Done:
  "insert_sale Done tot (customer_ref (r_customer_id data)) uid s
     = (Data [new_sale uid data tot s], s\<lparr>sales := sales s @ [new_sale uid data tot s]\<rparr>)"
  by (simp add: insert_sale_def new_sale_def Let_def)

lemma create_sale_checked:
  assumes "r_items data = Val items" "items \<noteq> []"
    and "check_items ar ans uid s 0 0 [] items = Inr (tot, es)" and "ans InsertSale = Done"
  shows "create_sale ar ans (Some uid) data s =
     (case process_items ans (s_id (new_sale uid data tot s)) 0 es
             (s\<lparr>sales := sales s @ [new_sale uid data tot s]\<rparr>) of
        (Some (code, msg), s2) \<Rightarrow> (Err code msg, s2)
      | (None, s2) \<Rightarrow> (Ok200 (new_sale uid data tot s), s2))"
proof -
  from assms(2) obtain item rest where items: "items = item # rest" by (cases items) auto
  show ?thesis
    using assms(1,3,4) unfolding items
    by (simp add: create_sale_def insert_sale_Done)
qed

lemma create_sale_rejected:
  assumes "r_items data = Val items" and "check_items ar ans uid s 0 0 [] items = Inl (code, msg)"
  shows "create_sale ar ans (Some uid) data s = (Err code msg, s)"
proof -
  from assms(2) obtain item rest where items: "items = item # rest" by (cases items) auto
  show ?thesis
    using assms unfolding items by (simp add: create_sale_def)
qed

lemma create_sale_Ok:
  assumes "create_sale ar ans auth data s = (Ok200 row, s')"
  obtains uid items tot es where "auth = Some uid" "r_items data = Val items" "items \<noteq> []"
    "check_items ar ans uid s 0 0 [] items = Inr (tot, es)" "ans InsertSale = Done"
    "row = new_sale uid data tot s"
    "process_items ans (s_id row) 0 es (s\<lparr>sales := sales s @ [row]\<rparr>) = (None, s')"
proof -
  from assms obtain uid where auth: "auth = Some uid"
    by (cases auth) (simp_all add: create_sale_def)
  from assms auth obtain item rest where items: "r_items data = Val (item # rest)"
    by (cases "r_items data"; cases "case r_items data of Val xs \<Rightarrow> xs | _ \<Rightarrow> []")
       (simp_all add: create_sale_def)
  from assms auth items obtain tot es where
    chk: "check_items ar ans uid s 0 0 [] (item # rest) = Inr (tot, es)"
    by (cases "check_items ar ans uid s 0 0 [] (item # rest)") (auto simp: create_sale_def)
  from assms auth items chk have ins: "ans InsertSale = Done"
    by (cases "ans InsertSale") (simp_all add: create_sale_def insert_sale_def)
  from assms have
    "(case process_items ans (s_id (new_sale uid data tot s)) 0 es
             (s\<lparr>sales := sales s @ [new_sale uid data tot s]\<rparr>) of
        (Some (code, msg), s2) \<Rightarrow> (Err code msg, s2)
      | (None, s2) \<Rightarrow> (Ok200 (new_sale uid data tot s), s2)) = (Ok200 row, s')"
    unfolding auth using create_sale_checked [OF items _ chk ins] by simp
  then have "row = new_sale uid data tot s"
    "process_items ans (s_id row) 0 es (s\<lparr>sales := sales s @ [row]\<rparr>) = (None, s')"
    by (auto split: prod.splits option.splits)
  with auth items chk ins show ?thesis
    by (intro that [of uid "item # rest" tot es]) simp_all
qed

lemma create_sale_some_failure:
  assumes "r_items data = Val items" "k < length items"
    and "check_item ans uid s k (items ! k) = Inl e"
  shows "\<exists>code msg. create_sale ar ans (Some uid) data s = (Err code msg, s)"
proof -
  from check_items_some_failure [where k = k and items = items and ans = ans and uid = uid
      and s = s and i = 0 and e = e and ar = ar and tot = 0 and acc = "[]"] assms(2,3)
  obtain e' where "check_items ar ans uid s 0 0 [] items = Inl e'" by auto
  then obtain code msg where "check_items ar ans uid s 0 0 [] items = Inl (code, msg)"
    by (cases e') auto
  from create_sale_rejected [OF assms(1) this] show ?thesis by blast
qed

lemma create_sale_first_failure:
  assumes "r_items data = Val items" "k < length items"
    and "\<forall>j<k. \<exists>p. check_item ans uid s j (items ! j) = Inr p"
    and "check_item ans uid s k (items ! k) = Inl (code, msg)"
  shows "create_sale ar ans (Some uid) data s = (Err code msg, s)"
proof -
  have "check_items ar ans uid s 0 0 [] items = Inl (code, msg)"
    by (rule check_items_first_failure [where k = k and i = 0 and tot = 0 and acc = "[]"])
       (use assms in simp_all)
  from create_sale_rejected [OF assms(1) this] show ?thesis .
qed

lemma create_sale_products:
  assumes "create_sale ar ans auth data s = (Ok200 row, s')"
  obtains uid items tot es where "auth = Some uid" "r_items data = Val items"
    "check_items ar ans uid s 0 0 [] items = Inr (tot, es)"
    "products s' = map (sold es) (products s)"
proof -
  from assms obtain uid items tot es where auth: "auth = Some uid" and items: "r_items data = Val items"
    and chk: "check_items ar ans uid s 0 0 [] items = Inr (tot, es)"
    and run: "process_items ans (s_id row) 0 es (s\<lparr>sales := sales s @ [row]\<rparr>) = (None, s')"
    by (rule create_sale_Ok)
  from process_None [OF run] have "products s' = map (sold es) (products s)"
    by (simp add: products_apply_items)
  with auth items chk show ?thesis by (rule that)
qed

lemma filter_old_sales:
  "filter (\<lambda>x. s_id x \<noteq> s_id (new_sale uid data tot s)) (sales s) = sales s"
proof -
  have "\<forall>x\<in>set (sales s). s_id x \<noteq> s_id (new_sale uid data tot s)"
  proof
    fix x assume "x \<in> set (sales s)"
    then have "s_id x \<in> set (map s_id (sales s))" by simp
    from new_id_fresh [OF this] show "s_id x \<noteq> s_id (new_sale uid data tot s)"
      by (simp add: new_sale_def)
  qed
  then show ?thesis by (simp add: filter_id_conv)
qed


subsection \<open>The total of a sale\<close>

text \<open>
  With the arithmetic that does not round, the total of a request is the sum of the
  products of effective unit price and quantity.
\<close>

lemma sale_total_exact:
  "sale_total exact uid s items
     = sum_list (map (\<lambda>item. effective_unit_price uid s item * of_int (requested_quantity item)) items)"
proof -
  have "foldl (+) a (map f items) = a + sum_list (map f items)" for a :: rat and f
    by (induction items arbitrary: a) (simp_all add: add.assoc)
  from this [of 0] show ?thesis by (simp add: sale_total_def exact_def)
qed

text \<open>
  Claim C1.  When \<^verbatim>\<open>create_sale\<close> succeeds, the request was authenticated and carried
  a list of items, the total of the sale row it returns is the sum over the items of
  effective unit price times quantity (the unit price of the item when it has one, the
  catalog price of the user's product otherwise), that row is the one row the call adds
  to the sales table, and a \<^verbatim>\<open>total\<close> sent by the client changes nothing: the call gives
  the same response and the same store for every value \<open>t\<close> of that key.  The sum is
  the one Python computes, the products added one by one to 0 in the order of the items,
  whatever its \<^verbatim>\<open>+\<close> and \<^verbatim>\<open>*\<close> round: at a unit price of 0.1 and a quantity of 3 the
  two sides are the same double.
\<close>

theorem sale_total_server_side:
  assumes "create_sale ar ans auth data s = (Ok200 sale_row, s')"
  shows "\<exists>uid items. auth = Some uid \<and> r_items data = Val items
           \<and> s_total sale_row = sale_total ar uid s items
           \<and> sales s' = sales s @ [sale_row]
           \<and> create_sale ar ans auth (data\<lparr>r_total := t\<rparr>) s = (Ok200 sale_row, s')"
proof -
  from assms obtain uid items tot es where auth: "auth = Some uid" and items: "r_items data = Val items"
    and ne: "items \<noteq> []"
    and chk: "check_items ar ans uid s 0 0 [] items = Inr (tot, es)"
    and ins: "ans InsertSale = Done"
    and row: "sale_row = new_sale uid data tot s"
    and run: "process_items ans (s_id sale_row) 0 es (s\<lparr>sales := sales s @ [sale_row]\<rparr>) = (None, s')"
    by (rule create_sale_Ok)
  from row have "s_total sale_row = tot" by (simp add: new_sale_def)
  with check_items_total [OF chk] have total: "s_total sale_row = sale_total ar uid s items" by simp
  from process_None [OF run] have persisted: "sales s' = sales s @ [sale_row]"
    by (simp add: apply_items_fields)
  have items': "r_items (data\<lparr>r_total := t\<rparr>) = Val items" using items by simp
  have same: "new_sale uid (data\<lparr>r_total := t\<rparr>) tot s = new_sale uid data tot s"
    by (simp add: new_sale_def)
  have "create_sale ar ans (Some uid) (data\<lparr>r_total := t\<rparr>) s = create_sale ar ans (Some uid) data s"
    unfolding create_sale_checked [OF items' ne chk ins] create_sale_checked [OF items ne chk ins] same ..
  with auth items total persisted assms show ?thesis by simp
qed

text \<open>
  A sale of two items on the sample store, the second with its own unit price and a
  client total of 1: the persisted total is 5/2 * 2 + 4 * 1 = 9.
\<close>

theorem sale_total_server_side_witness:
  "create_sale exact all_done (Some ''ana'')
       ((order [line 1 2, (line 2 1)\<lparr>i_unit_price := Val 4\<rparr>])\<lparr>r_total := Val 1\<rparr>) shop
     = (Ok200 \<lparr>s_id = 1, s_user_id = ''ana'', s_customer_id = None, s_total = 9, s_sale_date = 100\<rparr>,
        shop\<lparr>products := [cafe\<lparr>p_stock := 8\<rparr>, te\<lparr>p_stock := 3\<rparr>, mate],
             sales := [\<lparr>s_id = 1, s_user_id = ''ana'', s_customer_id = None, s_total = 9, s_sale_date = 100\<rparr>],
             sale_items := [\<lparr>si_sale_id = 1, si_product_id = 1, si_quantity = 2, si_unit_price = 5 / 2\<rparr>,
                            \<lparr>si_sale_id = 1, si_product_id = 2, si_quantity = 1, si_unit_price = 4\<rparr>]\<rparr>)
   \<and> sale_total exact ''ana'' shop [line 1 2, (line 2 1)\<lparr>i_unit_price := Val 4\<rparr>] = 9
   \<and> create_sale exact all_done (Some ''ana'')
       (order [line 1 2, (line 2 1)\<lparr>i_unit_price := Val 4\<rparr>]) shop
     = (Ok200 \<lparr>s_id = 1, s_user_id = ''ana'', s_customer_id = None, s_total = 9, s_sale_date = 100\<rparr>,
        shop\<lparr>products := [cafe\<lparr>p_stock := 8\<rparr>, te\<lparr>p_stock := 3\<rparr>, mate],
             sales := [\<lparr>s_id = 1, s_user_id = ''ana'', s_customer_id = None, s_total = 9, s_sale_date = 100\<rparr>],
             sale_items := [\<lparr>si_sale_id = 1, si_product_id = 1, si_quantity = 2, si_unit_price = 5 / 2\<rparr>,
                            \<lparr>si_sale_id = 1, si_product_id = 2, si_quantity = 1, si_unit_price = 4\<rparr>]\<rparr>)"
proof -
  let ?items = "[line 1 2, (line 2 1)\<lparr>i_unit_price := Val 4\<rparr>]"
  let ?sale = "\<lparr>s_id = 1, s_user_id = ''ana'', s_customer_id = None, s_total = 9, s_sale_date = 100\<rparr>"
  let ?after = "shop\<lparr>products := [cafe\<lparr>p_stock := 8\<rparr>, te\<lparr>p_stock := 3\<rparr>, mate],
             sales := [?sale],
             sale_items := [\<lparr>si_sale_id = 1, si_product_id = 1, si_quantity = 2, si_unit_price = 5 / 2\<rparr>,
                            \<lparr>si_sale_id = 1, si_product_id = 2, si_quantity = 1, si_unit_price = 4\<rparr>]\<rparr>"
  have run: "create_sale exact all_done (Some ''ana'') ((order ?items)\<lparr>r_total := Val 1\<rparr>) shop = (Ok200 ?sale, ?after)"
    by (simp add: sample_defs store_defs sale_defs)
  from sale_total_server_side [OF run, of Absent]
  have "s_total ?sale = sale_total exact ''ana'' shop ?items
      \<and> create_sale exact all_done (Some ''ana'') ((order ?items)\<lparr>r_total := Val 1, r_total := Absent\<rparr>) shop = (Ok200 ?sale, ?after)"
    by (auto simp: order_def)
  moreover have "(order ?items)\<lparr>r_total := Val 1, r_total := Absent\<rparr> = order ?items"
    by (simp add: order_def)
  ultimately show ?thesis using run by simp
qed

subsection \<open>Requests that are rejected\<close>

text \<open>
  Claim C2, amended.  A request that contains an item asking for more than the stock of
  the product it refers to is answered with an error and the store is left as it was: no
  sale, no sale item, no stock change.  The error is the 400 that names the product and
  its current stock when the items before it pass validation, the item has a product
  identifier and a quantity other than 0, and the store answers the read of the product.
  The validation loop stops at the first item it rejects, so an earlier item decides the
  error otherwise.
\<close>

theorem insufficient_stock_rejected:
  assumes "r_items data = Val items" and "k < length items"
    and "understocked uid s (items ! k)"
  shows "(\<exists>code msg. create_sale ar ans (Some uid) data s = (Err code msg, s))
     \<and> ((\<forall>j<k. \<exists>p. check_item ans uid s j (items ! j) = Inr p)
          \<and> requested_product (items ! k) \<noteq> 0 \<and> requested_quantity (items ! k) \<noteq> 0
          \<and> ans (SelectProduct k) = Done \<longrightarrow>
        (\<exists>p. catalog_product uid s (requested_product (items ! k)) = Some p
           \<and> create_sale ar ans (Some uid) data s = (Err 400 (insufficient_stock p), s)))"
proof (intro conjI impI)
  from check_item_understocked [OF assms(3)] obtain e where
    "check_item ans uid s k (items ! k) = Inl e" by blast
  from create_sale_some_failure [OF assms(1,2) this]
  show "\<exists>code msg. create_sale ar ans (Some uid) data s = (Err code msg, s)" .
next
  assume h: "(\<forall>j<k. \<exists>p. check_item ans uid s j (items ! j) = Inr p)
          \<and> requested_product (items ! k) \<noteq> 0 \<and> requested_quantity (items ! k) \<noteq> 0
          \<and> ans (SelectProduct k) = Done"
  then have before: "\<forall>j<k. \<exists>p. check_item ans uid s j (items ! j) = Inr p" by blast
  from h check_item_understocked_exact [OF assms(3), of ans k]
  obtain p where p: "catalog_product uid s (requested_product (items ! k)) = Some p"
    "check_item ans uid s k (items ! k) = Inl (400, insufficient_stock p)" by blast
  from create_sale_first_failure [OF assms(1,2) before p(2)] p(1)
  show "\<exists>p. catalog_product uid s (requested_product (items ! k)) = Some p
           \<and> create_sale ar ans (Some uid) data s = (Err 400 (insufficient_stock p), s)"
    by blast
qed

text \<open>
  On the sample store: the second item asks for 9 of a product with a stock of 4.
\<close>

theorem insufficient_stock_rejected_witness:
  "understocked ''ana'' shop (line 2 9)
   \<and> catalog_product ''ana'' shop 2 = Some te
   \<and> create_sale exact all_done (Some ''ana'') (order [line 1 2, line 2 9]) shop
       = (Err 400 ''Stock insuficiente para Te. Stock disponible: 4'', shop)"
proof -
  let ?items = "[line 1 2, line 2 9]"
  have items: "r_items (order ?items) = Val ?items" by (simp add: order_def)
  have k: "(1::nat) < length ?items" by simp
  have u: "understocked ''ana'' shop (?items ! 1)"
    by (simp add: understocked_def sample_defs request_defs)
  have cat: "catalog_product ''ana'' shop 2 = Some te"
    by (simp add: sample_defs request_defs)
  have before: "\<forall>j<1. \<exists>p. check_item all_done ''ana'' shop j (?items ! j) = Inr p"
    by (simp add: sample_defs store_defs sale_defs)
  have req: "requested_product (?items ! 1) = 2" "requested_quantity (?items ! 1) = 9"
    by (simp_all add: requested_product_def requested_quantity_def line_def)
  have sel: "all_done (SelectProduct 1) = Done" by (simp add: all_done_def)
  from insufficient_stock_rejected [OF items k u, where ans = all_done and ar = exact] before req sel
  obtain p where "catalog_product ''ana'' shop 2 = Some p"
    "create_sale exact all_done (Some ''ana'') (order ?items) shop = (Err 400 (insufficient_stock p), shop)"
    by auto
  moreover have "insufficient_stock te = ''Stock insuficiente para Te. Stock disponible: 4''"
    by (simp add: format_defs te_def)
  ultimately show ?thesis using u cat by simp
qed

text \<open>
  Claim C2 as stated fails: this request contains the same under-stocked item, and the
  answer is the 404 for the unknown product of the item before it.
\<close>

theorem insufficient_stock_not_always_reported:
  "understocked ''ana'' shop (line 2 9)
   \<and> create_sale exact all_done (Some ''ana'') (order [line 7 1, line 2 9]) shop
       = (Err 404 ''Producto 7 no encontrado'', shop)
   \<and> fst (create_sale exact all_done (Some ''ana'') (order [line 7 1, line 2 9]) shop)
       \<noteq> Err 400 ''Stock insuficiente para Te. Stock disponible: 4''"
  by (simp add: understocked_def sample_defs request_defs store_defs sale_defs format_defs)

text \<open>
  Claim C6, amended.  A request whose \<^verbatim>\<open>items\<close> key is absent, \<^verbatim>\<open>null\<close> or an empty
  list is answered with the 400 "La venta debe tener al menos un item", the store
  untouched.  A request that contains an item without a product reference or without a
  quantity (absent, \<^verbatim>\<open>null\<close> or 0) is answered with an error, the store untouched,
  and that error is the 400 "Cada item debe tener product_id y quantity" when the
  items before it pass validation.
\<close>

theorem invalid_items_rejected:
  "(r_items data = Absent \<or> r_items data = Null \<or> r_items data = Val [] \<longrightarrow>
      create_sale ar ans (Some uid) data s = (Err 400 ''La venta debe tener al menos un item'', s))
   \<and> (r_items data = Val items \<and> k < length items
        \<and> (lacks_reference (items ! k) \<or> lacks_quantity (items ! k)) \<longrightarrow>
      (\<exists>code msg. create_sale ar ans (Some uid) data s = (Err code msg, s))
      \<and> ((\<forall>j<k. \<exists>p. check_item ans uid s j (items ! j) = Inr p) \<longrightarrow>
           create_sale ar ans (Some uid) data s
             = (Err 400 ''Cada item debe tener product_id y quantity'', s)))"
proof (intro conjI impI)
  assume "r_items data = Absent \<or> r_items data = Null \<or> r_items data = Val []"
  then show "create_sale ar ans (Some uid) data s = (Err 400 ''La venta debe tener al menos un item'', s)"
    by (auto simp: create_sale_def)
next
  assume h: "r_items data = Val items \<and> k < length items
        \<and> (lacks_reference (items ! k) \<or> lacks_quantity (items ! k))"
  then have bad: "check_item ans uid s k (items ! k) = Inl (400, item_required)"
    by (simp add: check_item_lacking)
  from h create_sale_some_failure [OF _ _ bad]
  show "\<exists>code msg. create_sale ar ans (Some uid) data s = (Err code msg, s)" by blast
  assume "\<forall>j<k. \<exists>p. check_item ans uid s j (items ! j) = Inr p"
  from create_sale_first_failure [OF _ _ this bad] h
  show "create_sale ar ans (Some uid) data s = (Err 400 ''Cada item debe tener product_id y quantity'', s)"
    by (simp add: item_required_def)
qed

text \<open>
  On the sample store: an empty list of items, and a second item with quantity 0.
\<close>

theorem invalid_items_rejected_witness:
  "create_sale exact all_done (Some ''ana'') (order []) shop
     = (Err 400 ''La venta debe tener al menos un item'', shop)
   \<and> lacks_quantity (line 2 0)
   \<and> create_sale exact all_done (Some ''ana'') (order [line 1 2, line 2 0]) shop
     = (Err 400 ''Cada item debe tener product_id y quantity'', shop)"
proof -
  let ?items = "[line 1 2, line 2 0]"
  have empty: "r_items (order []) = Val []" by (simp add: order_def)
  have items: "r_items (order ?items) = Val ?items" by (simp add: order_def)
  have k: "(1::nat) < length ?items" by simp
  have bad: "lacks_quantity (?items ! 1)" by (simp add: lacks_quantity_def line_def)
  have before: "\<forall>j<1. \<exists>p. check_item all_done ''ana'' shop j (?items ! j) = Inr p"
    by (simp add: sample_defs store_defs sale_defs)
  from invalid_items_rejected [where data = "order []" and ans = all_done and uid = "''ana''" and s = shop] empty
  have 1: "create_sale exact all_done (Some ''ana'') (order []) shop
     = (Err 400 ''La venta debe tener al menos un item'', shop)" by blast
  from invalid_items_rejected [where data = "order ?items" and items = ?items and k = 1
      and ans = all_done and uid = "''ana''" and s = shop] items k bad before
  have 2: "create_sale exact all_done (Some ''ana'') (order ?items) shop
     = (Err 400 ''Cada item debe tener product_id y quantity'', shop)" by blast
  from 1 2 bad show ?thesis by simp
qed

text \<open>
  Claim C6 as stated fails: the presence test \<^verbatim>\<open>not item.get('quantity')\<close> lets a
  negative quantity through.  The sale is recorded with a negative total and the stock
  goes up.
\<close>

theorem negative_quantity_accepted:
  "create_sale exact all_done (Some ''ana'') (order [line 1 (- 3)]) shop
     = (Ok200 \<lparr>s_id = 1, s_user_id = ''ana'', s_customer_id = None, s_total = - 15 / 2, s_sale_date = 100\<rparr>,
        shop\<lparr>products := [cafe\<lparr>p_stock := 13\<rparr>, te, mate],
             sales := [\<lparr>s_id = 1, s_user_id = ''ana'', s_customer_id = None, s_total = - 15 / 2, s_sale_date = 100\<rparr>],
             sale_items := [\<lparr>si_sale_id = 1, si_product_id = 1, si_quantity = - 3, si_unit_price = 5 / 2\<rparr>]\<rparr>)"
  by (simp add: sample_defs store_defs sale_defs)

subsection \<open>Failures of the store after the header is inserted\<close>

text \<open>
  The failure the second loop tests is an answer without a row,
  \<^verbatim>\<open>not item_response.data\<close>.  The request passes validation and the sale header is
  inserted; the store carries out the calls for the items before position \<open>k\<close>, answers
  the insert of the sale item at position \<open>k\<close> with no row, and carries out the delete
  of the header.  Then \<^verbatim>\<open>create_sale\<close> answers 400 with an error that names the user's
  product the item refers to, and the sales table is what it was before the call: no
  header remains.
\<close>

theorem item_insert_failure_removes_header:
  assumes "r_items data = Val items"
    and "check_items ar ans uid s 0 0 [] items = Inr (tot, es)"
    and "ans InsertSale = Done"
    and "k < length items"
    and "\<forall>j<k. ans (InsertSaleItem j) = Done \<and> ans (UpdateStock j) = Done"
    and "ans (InsertSaleItem k) = NoRows"
    and "ans DeleteSale = Done"
  shows "\<exists>p. catalog_product uid s (requested_product (items ! k)) = Some p
           \<and> fst (create_sale ar ans (Some uid) data s)
               = Err 400 (''Error creando item para '' @ p_name p)
           \<and> sales (snd (create_sale ar ans (Some uid) data s)) = sales s"
proof -
  let ?row = "new_sale uid data tot s"
  let ?s1 = "s\<lparr>sales := sales s @ [?row]\<rparr>"
  from assms(4) have ne: "items \<noteq> []" by auto
  have run: "process_items ans (s_id ?row) 0 es ?s1
      = process_items ans (s_id ?row) k (es ! k # drop (Suc k) es) (apply_items (s_id ?row) (take k es) ?s1)"
    by (rule process_upto [OF assms(2,4,5)]) simp
  also have "\<dots> = (Some (400, ''Error creando item para '' @ p_name (ip_product (es ! k))),
      (apply_items (s_id ?row) (take k es) ?s1)\<lparr>sales := filter (\<lambda>x. s_id x \<noteq> s_id ?row) (sales (apply_items (s_id ?row) (take k es) ?s1))\<rparr>)"
    by (rule process_insert_no_row [OF assms(6,7)])
  finally have res: "create_sale ar ans (Some uid) data s
      = (Err 400 (''Error creando item para '' @ p_name (ip_product (es ! k))),
         (apply_items (s_id ?row) (take k es) ?s1)\<lparr>sales := filter (\<lambda>x. s_id x \<noteq> s_id ?row) (sales (apply_items (s_id ?row) (take k es) ?s1))\<rparr>)"
    by (simp add: create_sale_checked [OF assms(1) ne assms(2,3)])
  from check_items_Inr [OF assms(2)] assms(4)
  have item: "check_item ans uid s k (items ! k) = Inr (es ! k)" by auto
  from checked_request(3) [OF item] res
  show ?thesis
    by (intro exI [of _ "ip_product (es ! k)"]) (simp add: apply_items_fields filter_old_sales)
qed

text \<open>
  On the sample store, a sale of two items whose second insert answers no row: the error
  names the second product, and the sales table is empty again.
\<close>

theorem item_insert_failure_removes_header_witness:
  "check_items exact (all_done(InsertSaleItem 1 := NoRows)) ''ana'' shop 0 0 [] [line 1 2, line 2 1]
     = Inr (8, [\<lparr>ip_product = cafe, ip_product_id = 1, ip_quantity = 2, ip_unit_price = 5 / 2\<rparr>,
                \<lparr>ip_product = te, ip_product_id = 2, ip_quantity = 1, ip_unit_price = 3\<rparr>])
   \<and> catalog_product ''ana'' shop 2 = Some te
   \<and> fst (create_sale exact (all_done(InsertSaleItem 1 := NoRows)) (Some ''ana'') (order [line 1 2, line 2 1]) shop)
       = Err 400 ''Error creando item para Te''
   \<and> sales (snd (create_sale exact (all_done(InsertSaleItem 1 := NoRows)) (Some ''ana'') (order [line 1 2, line 2 1]) shop))
       = []"
proof -
  let ?ans = "all_done(InsertSaleItem 1 := NoRows)"
  let ?items = "[line 1 2, line 2 1]"
  have items: "r_items (order ?items) = Val ?items" by (simp add: order_def)
  have chk: "check_items exact ?ans ''ana'' shop 0 0 [] ?items
     = Inr (8, [\<lparr>ip_product = cafe, ip_product_id = 1, ip_quantity = 2, ip_unit_price = 5 / 2\<rparr>,
                \<lparr>ip_product = te, ip_product_id = 2, ip_quantity = 1, ip_unit_price = 3\<rparr>])"
    by (simp add: sample_defs store_defs sale_defs)
  have ins: "?ans InsertSale = Done" by (simp add: all_done_def)
  have k: "(1::nat) < length ?items" by simp
  have before: "\<forall>j<1. ?ans (InsertSaleItem j) = Done \<and> ?ans (UpdateStock j) = Done"
    by (simp add: all_done_def)
  have fails: "?ans (InsertSaleItem 1) = NoRows" by simp
  have del: "?ans DeleteSale = Done" by (simp add: all_done_def)
  have cat: "catalog_product ''ana'' shop 2 = Some te"
    by (simp add: sample_defs request_defs)
  have req: "requested_product (?items ! 1) = 2" by (simp add: requested_product_def line_def)
  from item_insert_failure_removes_header [OF items chk ins k before fails del]
  obtain p where "catalog_product ''ana'' shop 2 = Some p"
    and "fst (create_sale exact ?ans (Some ''ana'') (order ?items) shop) = Err 400 (''Error creando item para '' @ p_name p)"
    and "sales (snd (create_sale exact ?ans (Some ''ana'') (order ?items) shop)) = sales shop"
    unfolding req by blast
  moreover have "p_name te = ''Te''" "sales shop = []" by (simp_all add: te_def shop_def)
  ultimately show ?thesis using cat chk by simp
qed

text \<open>
  The same for a stock update that answers no row, \<^verbatim>\<open>not update_response.data\<close>.  The
  request passes validation, the header and the sale items up to position \<open>k\<close> are
  inserted, and the store answers the stock update of the item at position \<open>k\<close> with
  no row; it carries out the two compensating deletes.  Then \<^verbatim>\<open>create_sale\<close> answers 400
  with an error that names the product, the sales table is what it was before the call,
  and no sale item of the new sale is left.
\<close>

theorem stock_update_failure_removes_sale:
  assumes "r_items data = Val items"
    and "check_items ar ans uid s 0 0 [] items = Inr (tot, es)"
    and "ans InsertSale = Done"
    and "k < length items"
    and "\<forall>j<k. ans (InsertSaleItem j) = Done \<and> ans (UpdateStock j) = Done"
    and "ans (InsertSaleItem k) = Done"
    and "ans (UpdateStock k) = NoRows"
    and "ans DeleteSale = Done"
    and "ans DeleteSaleItems = Done"
  shows "\<exists>p. catalog_product uid s (requested_product (items ! k)) = Some p
           \<and> fst (create_sale ar ans (Some uid) data s)
               = Err 400 (''Error actualizando stock para '' @ p_name p)
           \<and> sales (snd (create_sale ar ans (Some uid) data s)) = sales s
           \<and> sale_items (snd (create_sale ar ans (Some uid) data s))
               = filter (\<lambda>x. si_sale_id x \<noteq> new_id (map s_id (sales s))) (sale_items s)"
proof -
  let ?row = "new_sale uid data tot s"
  let ?s1 = "s\<lparr>sales := sales s @ [?row]\<rparr>"
  let ?sk = "apply_items (s_id ?row) (take k es) ?s1"
  from assms(4) have ne: "items \<noteq> []" by auto
  have sid: "s_id ?row = new_id (map s_id (sales s))" by (simp add: new_sale_def)
  have run: "process_items ans (s_id ?row) 0 es ?s1
      = process_items ans (s_id ?row) k (es ! k # drop (Suc k) es) ?sk"
    by (rule process_upto [OF assms(2,4,5)]) simp
  also have "\<dots> = (Some (400, ''Error actualizando stock para '' @ p_name (ip_product (es ! k))),
      ?sk\<lparr>sale_items := filter (\<lambda>x. si_sale_id x \<noteq> s_id ?row) (sale_items ?sk @ [item_row (s_id ?row) (es ! k)]),
          sales := filter (\<lambda>x. s_id x \<noteq> s_id ?row) (sales ?sk)\<rparr>)"
    by (rule process_update_no_row [OF assms(6,7,8,9)])
  finally have res: "create_sale ar ans (Some uid) data s
      = (Err 400 (''Error actualizando stock para '' @ p_name (ip_product (es ! k))),
      ?sk\<lparr>sale_items := filter (\<lambda>x. si_sale_id x \<noteq> s_id ?row) (sale_items ?sk @ [item_row (s_id ?row) (es ! k)]),
          sales := filter (\<lambda>x. s_id x \<noteq> s_id ?row) (sales ?sk)\<rparr>)"
    by (simp add: create_sale_checked [OF assms(1) ne assms(2,3)])
  have this_row: "si_sale_id (item_row (s_id ?row) (es ! k)) = s_id ?row"
    by (simp add: item_row_def)
  have gone: "filter (\<lambda>x. si_sale_id x \<noteq> s_id ?row) (map (item_row (s_id ?row)) (take k es)) = []"
    by (simp add: filter_empty_conv item_row_def)
  from check_items_Inr [OF assms(2)] assms(4)
  have item: "check_item ans uid s k (items ! k) = Inr (es ! k)" by auto
  from checked_request(3) [OF item] res gone
  show ?thesis
    by (intro exI [of _ "ip_product (es ! k)"])
       (simp add: apply_items_fields filter_old_sales sid [symmetric] this_row)
qed

text \<open>
  On the sample store, a sale of two items whose second stock update answers no row: the
  error names the second product, and neither the header nor a sale item is left.
\<close>

theorem stock_update_failure_removes_sale_witness:
  "catalog_product ''ana'' shop 2 = Some te
   \<and> create_sale exact (all_done(UpdateStock 1 := NoRows)) (Some ''ana'') (order [line 1 2, line 2 1]) shop
       = (Err 400 ''Error actualizando stock para Te'', shop\<lparr>products := [cafe\<lparr>p_stock := 8\<rparr>, te, mate]\<rparr>)
   \<and> sales (snd (create_sale exact (all_done(UpdateStock 1 := NoRows)) (Some ''ana'') (order [line 1 2, line 2 1]) shop))
       = []
   \<and> sale_items (snd (create_sale exact (all_done(UpdateStock 1 := NoRows)) (Some ''ana'') (order [line 1 2, line 2 1]) shop))
       = []"
proof -
  let ?ans = "all_done(UpdateStock 1 := NoRows)"
  let ?items = "[line 1 2, line 2 1]"
  have items: "r_items (order ?items) = Val ?items" by (simp add: order_def)
  have chk: "check_items exact ?ans ''ana'' shop 0 0 [] ?items
     = Inr (8, [\<lparr>ip_product = cafe, ip_product_id = 1, ip_quantity = 2, ip_unit_price = 5 / 2\<rparr>,
                \<lparr>ip_product = te, ip_product_id = 2, ip_quantity = 1, ip_unit_price = 3\<rparr>])"
    by (simp add: sample_defs store_defs sale_defs)
  have ins: "?ans InsertSale = Done" by (simp add: all_done_def)
  have k: "(1::nat) < length ?items" by simp
  have before: "\<forall>j<1. ?ans (InsertSaleItem j) = Done \<and> ?ans (UpdateStock j) = Done"
    by (simp add: all_done_def)
  have ins1: "?ans (InsertSaleItem 1) = Done" by (simp add: all_done_def)
  have fails: "?ans (UpdateStock 1) = NoRows" by simp
  have del: "?ans DeleteSale = Done" "?ans DeleteSaleItems = Done" by (simp_all add: all_done_def)
  have cat: "catalog_product ''ana'' shop 2 = Some te"
    by (simp add: sample_defs request_defs)
  have run: "create_sale exact ?ans (Some ''ana'') (order ?items) shop
       = (Err 400 ''Error actualizando stock para Te'', shop\<lparr>products := [cafe\<lparr>p_stock := 8\<rparr>, te, mate]\<rparr>)"
    by (simp add: sample_defs store_defs sale_defs)
  have req: "requested_product (?items ! 1) = 2" by (simp add: requested_product_def line_def)
  from stock_update_failure_removes_sale [OF items chk ins k before ins1 fails del]
  have "sales (snd (create_sale exact ?ans (Some ''ana'') (order ?items) shop)) = sales shop"
    and "sale_items (snd (create_sale exact ?ans (Some ''ana'') (order ?items) shop))
           = filter (\<lambda>x. si_sale_id x \<noteq> new_id (map s_id (sales shop))) (sale_items shop)"
    by blast+
  moreover have "sales shop = []" "sale_items shop = []" by (simp_all add: shop_def)
  ultimately show ?thesis using cat run by simp
qed



text \<open>
  A store call that raises leaves the loop through the handler's \<^verbatim>\<open>except Exception\<close>,
  which answers 500 with the exception's message and sends no delete.  When the insert of
  the sale item at position \<open>k\<close> raises, the header and the sale items inserted so far
  stay in the store.
\<close>

lemma process_update_raises:
  assumes "ans (InsertSaleItem i) = Done" "ans (UpdateStock i) = Raises m"
  shows "process_items ans sid i (e # es) s
     = (Some (500, internal_error m), s\<lparr>sale_items := sale_items s @ [item_row sid e]\<rparr>)"
  using assms by (simp add: insert_sale_item_def update_stock_def item_row_def)

lemma exception_skips_compensation:
  assumes "r_items data = Val items"
    and "check_items ar ans uid s 0 0 [] items = Inr (tot, es)"
    and "ans InsertSale = Done"
    and "k < length items"
    and "\<forall>j<k. ans (InsertSaleItem j) = Done \<and> ans (UpdateStock j) = Done"
    and "ans (InsertSaleItem k) = Raises m"
  shows "fst (create_sale ar ans (Some uid) data s) = Err 500 (internal_error m)
     \<and> sales (snd (create_sale ar ans (Some uid) data s)) = sales s @ [new_sale uid data tot s]
     \<and> sale_items (snd (create_sale ar ans (Some uid) data s))
         = sale_items s @ map (item_row (s_id (new_sale uid data tot s))) (take k es)"
proof -
  let ?row = "new_sale uid data tot s"
  let ?s1 = "s\<lparr>sales := sales s @ [?row]\<rparr>"
  from assms(4) have ne: "items \<noteq> []" by auto
  have "process_items ans (s_id ?row) 0 es ?s1
      = process_items ans (s_id ?row) k (es ! k # drop (Suc k) es) (apply_items (s_id ?row) (take k es) ?s1)"
    by (rule process_upto [OF assms(2,4,5)]) simp
  also have "\<dots> = (Some (500, internal_error m), apply_items (s_id ?row) (take k es) ?s1)"
    using assms(6) by (rule process_insert_raises [where ans = ans and i = k and m = m])
  finally have "create_sale ar ans (Some uid) data s
      = (Err 500 (internal_error m), apply_items (s_id ?row) (take k es) ?s1)"
    by (simp add: create_sale_checked [OF assms(1) ne assms(2,3)])
  then show ?thesis by (simp add: apply_items_fields)
qed

text \<open>
  When the stock update of the item at position \<open>k\<close> raises, the header stays, and so do
  the sale items up to and including the one at position \<open>k\<close>.
\<close>

lemma update_exception_skips_compensation:
  assumes "r_items data = Val items"
    and "check_items ar ans uid s 0 0 [] items = Inr (tot, es)"
    and "ans InsertSale = Done"
    and "k < length items"
    and "\<forall>j<k. ans (InsertSaleItem j) = Done \<and> ans (UpdateStock j) = Done"
    and "ans (InsertSaleItem k) = Done"
    and "ans (UpdateStock k) = Raises m"
  shows "fst (create_sale ar ans (Some uid) data s) = Err 500 (internal_error m)
     \<and> sales (snd (create_sale ar ans (Some uid) data s)) = sales s @ [new_sale uid data tot s]
     \<and> sale_items (snd (create_sale ar ans (Some uid) data s))
         = sale_items s @ map (item_row (s_id (new_sale uid data tot s))) (take (Suc k) es)"
proof -
  let ?row = "new_sale uid data tot s"
  let ?s1 = "s\<lparr>sales := sales s @ [?row]\<rparr>"
  let ?sk = "apply_items (s_id ?row) (take k es) ?s1"
  from assms(4) have ne: "items \<noteq> []" by auto
  from check_items_Inr [OF assms(2)] assms(4) have k: "k < length es" by auto
  have "process_items ans (s_id ?row) 0 es ?s1
      = process_items ans (s_id ?row) k (es ! k # drop (Suc k) es) ?sk"
    by (rule process_upto [OF assms(2,4,5)]) simp
  also have "\<dots> = (Some (500, internal_error m),
                    ?sk\<lparr>sale_items := sale_items ?sk @ [item_row (s_id ?row) (es ! k)]\<rparr>)"
    by (rule process_update_raises [OF assms(6,7)])
  finally have "create_sale ar ans (Some uid) data s
      = (Err 500 (internal_error m),
         ?sk\<lparr>sale_items := sale_items ?sk @ [item_row (s_id ?row) (es ! k)]\<rparr>)"
    by (simp add: create_sale_checked [OF assms(1) ne assms(2,3)])
  then show ?thesis using k by (simp add: apply_items_fields take_Suc_conv_app_nth)
qed

text \<open>
  Claim C3, a defect of the code.  The handler means to undo the sale when an item
  fails (its comment reads "Si falla un item, revertir la venta"), and it does when the
  insert answers no row.  An insert that fails by raising never reaches that branch: the
  handler answers 500 with the exception's message, names no product and deletes
  nothing.  On the sample store, a sale of two items whose second insert raises: the
  header of the sale stays in the sales table, with the first sale item, and the stock
  of the first product stays decremented.
\<close>

theorem raising_item_insert_keeps_header:
  "create_sale exact (all_done(InsertSaleItem 1 := Raises ''timeout'')) (Some ''ana'') (order [line 1 2, line 2 1]) shop
     = (Err 500 ''Error interno del servidor: timeout'',
        shop\<lparr>products := [cafe\<lparr>p_stock := 8\<rparr>, te, mate],
             sales := [\<lparr>s_id = 1, s_user_id = ''ana'', s_customer_id = None, s_total = 8, s_sale_date = 100\<rparr>],
             sale_items := [\<lparr>si_sale_id = 1, si_product_id = 1, si_quantity = 2, si_unit_price = 5 / 2\<rparr>]\<rparr>)"
  by (simp add: sample_defs store_defs sale_defs internal_error_def)

text \<open>
  Claim C4, a defect of the code.  The handler means to undo the sale when a stock
  update fails (its comment begins "Revertir la venta si falla"), and it does when the
  update answers no row.  An update that fails by raising never reaches that branch: the
  handler answers 500 with the exception's message, names no product and deletes
  nothing.  On the sample store, a sale of two items whose second stock update raises:
  the header of the sale and both sale items stay, and the stock of the first product
  stays decremented.
\<close>

theorem raising_stock_update_keeps_sale:
  "create_sale exact (all_done(UpdateStock 1 := Raises ''timeout'')) (Some ''ana'') (order [line 1 2, line 2 1]) shop
     = (Err 500 ''Error interno del servidor: timeout'',
        shop\<lparr>products := [cafe\<lparr>p_stock := 8\<rparr>, te, mate],
             sales := [\<lparr>s_id = 1, s_user_id = ''ana'', s_customer_id = None, s_total = 8, s_sale_date = 100\<rparr>],
             sale_items := [\<lparr>si_sale_id = 1, si_product_id = 1, si_quantity = 2, si_unit_price = 5 / 2\<rparr>,
                            \<lparr>si_sale_id = 1, si_product_id = 2, si_quantity = 1, si_unit_price = 3\<rparr>]\<rparr>)"
  by (simp add: sample_defs store_defs sale_defs internal_error_def)

subsection \<open>Stock after a successful sale\<close>

text \<open>
  After a successful sale, every row of a product that an item refers to holds the stock
  read before the sale minus the quantity of that item, provided no later item of the
  request refers to the same product.  For a request whose items refer to different
  products this is stock after = stock before - quantity, for every item.
\<close>

theorem stock_after_sale:
  assumes "create_sale ar ans auth data s = (Ok200 row, s')"
  shows "\<exists>uid items. auth = Some uid \<and> r_items data = Val items
     \<and> (\<forall>j<length items.
           (\<forall>l. j < l \<and> l < length items \<longrightarrow>
                 requested_product (items ! l) \<noteq> requested_product (items ! j)) \<longrightarrow>
           (\<exists>p0. catalog_product uid s (requested_product (items ! j)) = Some p0
              \<and> (\<forall>p\<in>set (products s'). p_id p = requested_product (items ! j) \<longrightarrow>
                    p_stock p = p_stock p0 - requested_quantity (items ! j))))"
proof -
  from assms obtain uid items tot es where auth: "auth = Some uid" and items: "r_items data = Val items"
    and chk: "check_items ar ans uid s 0 0 [] items = Inr (tot, es)"
    and prods: "products s' = map (sold es) (products s)"
    by (rule create_sale_products)
  from check_items_Inr [OF chk] have len: "length es = length items"
    and each: "\<forall>j<length items. check_item ans uid s j (items ! j) = Inr (es ! j)"
    by auto
  have "\<forall>j<length items.
           (\<forall>l. j < l \<and> l < length items \<longrightarrow>
                 requested_product (items ! l) \<noteq> requested_product (items ! j)) \<longrightarrow>
           (\<exists>p0. catalog_product uid s (requested_product (items ! j)) = Some p0
              \<and> (\<forall>p\<in>set (products s'). p_id p = requested_product (items ! j) \<longrightarrow>
                    p_stock p = p_stock p0 - requested_quantity (items ! j)))"
  proof (intro allI impI)
    fix j assume j: "j < length items"
      and last: "\<forall>l. j < l \<and> l < length items \<longrightarrow>
                 requested_product (items ! l) \<noteq> requested_product (items ! j)"
    from each j have c: "check_item ans uid s j (items ! j) = Inr (es ! j)" by blast
    have "\<forall>p\<in>set (products s'). p_id p = requested_product (items ! j) \<longrightarrow>
            p_stock p = p_stock (ip_product (es ! j)) - requested_quantity (items ! j)"
    proof (intro ballI impI)
      fix p assume "p \<in> set (products s')" and pid: "p_id p = requested_product (items ! j)"
      then obtain p1 where p1: "p1 \<in> set (products s)" "p = sold es p1"
        unfolding prods by auto
      with pid have "p_id p1 = requested_product (items ! j)" by (simp add: sold_id)
      from sold_last [OF chk j _ last this] len p1(2)
      show "p_stock p = p_stock (ip_product (es ! j)) - requested_quantity (items ! j)" by simp
    qed
    with checked_request(3) [OF c]
    show "\<exists>p0. catalog_product uid s (requested_product (items ! j)) = Some p0
              \<and> (\<forall>p\<in>set (products s'). p_id p = requested_product (items ! j) \<longrightarrow>
                    p_stock p = p_stock p0 - requested_quantity (items ! j))"
      by blast
  qed
  with auth items show ?thesis by blast
qed

text \<open>
  A sale of two different products on the sample store: 10 - 2 = 8 and 4 - 1 = 3.
\<close>

theorem stock_after_sale_witness:
  "create_sale exact all_done (Some ''ana'') (order [line 1 2, line 2 1]) shop
     = (Ok200 \<lparr>s_id = 1, s_user_id = ''ana'', s_customer_id = None, s_total = 8, s_sale_date = 100\<rparr>,
        shop\<lparr>products := [cafe\<lparr>p_stock := 8\<rparr>, te\<lparr>p_stock := 3\<rparr>, mate],
             sales := [\<lparr>s_id = 1, s_user_id = ''ana'', s_customer_id = None, s_total = 8, s_sale_date = 100\<rparr>],
             sale_items := [\<lparr>si_sale_id = 1, si_product_id = 1, si_quantity = 2, si_unit_price = 5 / 2\<rparr>,
                            \<lparr>si_sale_id = 1, si_product_id = 2, si_quantity = 1, si_unit_price = 3\<rparr>]\<rparr>)
   \<and> catalog_product ''ana'' shop 1 = Some cafe \<and> p_stock cafe = 10
   \<and> catalog_product ''ana'' shop 2 = Some te \<and> p_stock te = 4"
proof -
  let ?sale = "\<lparr>s_id = 1, s_user_id = ''ana'', s_customer_id = None, s_total = 8, s_sale_date = 100\<rparr>"
  let ?after = "shop\<lparr>products := [cafe\<lparr>p_stock := 8\<rparr>, te\<lparr>p_stock := 3\<rparr>, mate],
             sales := [?sale],
             sale_items := [\<lparr>si_sale_id = 1, si_product_id = 1, si_quantity = 2, si_unit_price = 5 / 2\<rparr>,
                            \<lparr>si_sale_id = 1, si_product_id = 2, si_quantity = 1, si_unit_price = 3\<rparr>]\<rparr>"
  have run: "create_sale exact all_done (Some ''ana'') (order [line 1 2, line 2 1]) shop = (Ok200 ?sale, ?after)"
    by (simp add: sample_defs store_defs sale_defs)
  from stock_after_sale [OF run] have "r_items (order [line 1 2, line 2 1]) = Val [line 1 2, line 2 1]"
    by (simp add: order_def)
  moreover have "catalog_product ''ana'' shop 1 = Some cafe" "p_stock cafe = 10"
    "catalog_product ''ana'' shop 2 = Some te" "p_stock te = 4"
    by (simp_all add: sample_defs request_defs)
  ultimately show ?thesis using run by simp
qed

text \<open>
  Claim C5 fails on the code when a product appears twice.  Both stock updates start from
  the stock read during validation (10): the first writes 8, the second writes 7.  The
  claim asks for 8 after the first item and, the decrements taken together, for 5.  In
  the same way two items of 6 pass the stock test against a stock of 10 and leave 4.
\<close>

theorem same_product_twice:
  "create_sale exact all_done (Some ''ana'') (order [line 1 2, line 1 3]) shop
     = (Ok200 \<lparr>s_id = 1, s_user_id = ''ana'', s_customer_id = None, s_total = 25 / 2, s_sale_date = 100\<rparr>,
        shop\<lparr>products := [cafe\<lparr>p_stock := 7\<rparr>, te, mate],
             sales := [\<lparr>s_id = 1, s_user_id = ''ana'', s_customer_id = None, s_total = 25 / 2, s_sale_date = 100\<rparr>],
             sale_items := [\<lparr>si_sale_id = 1, si_product_id = 1, si_quantity = 2, si_unit_price = 5 / 2\<rparr>,
                            \<lparr>si_sale_id = 1, si_product_id = 1, si_quantity = 3, si_unit_price = 5 / 2\<rparr>]\<rparr>)
   \<and> p_stock cafe = 10
   \<and> products (snd (create_sale exact all_done (Some ''ana'') (order [line 1 6, line 1 6]) shop))
       = [cafe\<lparr>p_stock := 4\<rparr>, te, mate]"
  by (simp add: sample_defs store_defs sale_defs)

subsection \<open>Ownership\<close>

lemma restocked_refl: "list_all2 (restocked P) ps ps"
  by (simp add: list_all2_same restocked_def)

lemma restocked_trans:
  assumes "list_all2 (restocked P) xs ys" "list_all2 (restocked P) ys zs"
  shows "list_all2 (restocked P) xs zs"
proof (rule list_all2_trans [OF _ assms])
  fix a b c assume "restocked P a b" "restocked P b c"
  then show "restocked P a c" by (auto simp: restocked_def)
qed

lemma restocked_mono:
  assumes "list_all2 (restocked P) xs ys" "P \<subseteq> Q"
  shows "list_all2 (restocked Q) xs ys"
  using assms(1)
proof (rule list_all2_mono)
  fix a b assume "restocked P a b"
  with assms(2) show "restocked Q a b" by (auto simp: restocked_def)
qed

lemma restocked_set_stock:
  "pid \<in> P \<Longrightarrow> list_all2 (restocked P) ps (set_stock pid n ps)"
  by (induction ps) (auto simp: set_stock_def restocked_def)

lemma process_step_products:
  assumes "process_items ans sid i (e # es) s = (r, s')"
  shows "products s' = products s
       \<or> products s' = set_stock (p_id (ip_product e)) (p_stock (ip_product e) - ip_quantity e) (products s)
       \<or> (\<exists>s1. products s1 = set_stock (p_id (ip_product e)) (p_stock (ip_product e) - ip_quantity e) (products s)
               \<and> process_items ans sid (Suc i) es s1 = (r, s'))"
  using assms
  by (auto simp: insert_sale_item_def update_stock_def delete_sale_def delete_sale_items_def
        set_stock_def
      split: outcome.splits list.splits)

lemma process_items_restocked:
  "process_items ans sid i es s = (r, s') \<Longrightarrow>
   list_all2 (restocked (p_id ` ip_product ` set es)) (products s) (products s')"
proof (induction es arbitrary: i s)
  case Nil
  then show ?case by (simp add: restocked_refl)
next
  case (Cons e es)
  let ?P = "p_id ` ip_product ` set (e # es)"
  from process_step_products [OF Cons.prems]
  consider "products s' = products s"
    | "products s' = set_stock (p_id (ip_product e)) (p_stock (ip_product e) - ip_quantity e) (products s)"
    | s1 where "products s1 = set_stock (p_id (ip_product e)) (p_stock (ip_product e) - ip_quantity e) (products s)"
        "process_items ans sid (Suc i) es s1 = (r, s')"
    by blast
  then show ?case
  proof cases
    case 1
    then show ?thesis by (simp only: restocked_refl)
  next
    case 2
    show ?thesis unfolding 2 by (rule restocked_set_stock) simp
  next
    case 3
    have "list_all2 (restocked ?P) (products s) (products s1)"
      unfolding 3(1) by (rule restocked_set_stock) simp
    moreover have "list_all2 (restocked ?P) (products s1) (products s')"
      by (rule restocked_mono [OF Cons.IH [OF 3(2)]]) auto
    ultimately show ?thesis by (rule restocked_trans)
  qed
qed

lemma restocked_others:
  assumes "list_all2 (restocked P) ps ps'"
    and "\<forall>p\<in>set ps. p_id p \<in> P \<longrightarrow> p_user_id p = uid"
  shows "filter (\<lambda>p. p_user_id p \<noteq> uid) ps' = filter (\<lambda>p. p_user_id p \<noteq> uid) ps"
  using assms
proof (induction rule: list_all2_induct)
  case Nil
  then show ?case by simp
next
  case (Cons p ps p' ps')
  from Cons.prems have "\<forall>x\<in>set ps. p_id x \<in> P \<longrightarrow> p_user_id x = uid" by simp
  from Cons.IH [OF this] Cons.hyps(1) Cons.prems show ?case
    by (auto simp: restocked_def)
qed

lemma create_sale_restocked:
  "\<exists>es :: processed list. list_all2 (restocked (p_id ` ip_product ` set es)) (products s)
           (products (snd (create_sale ar ans (Some uid) data s)))
       \<and> (\<forall>e\<in>set es. ip_product e \<in> set (products s) \<and> p_user_id (ip_product e) = uid)"
proof (cases "\<exists>items tot es. r_items data = Val items \<and> items \<noteq> []
        \<and> check_items ar ans uid s 0 0 [] items = Inr (tot, es) \<and> ans InsertSale = Done")
  case True
  then obtain items tot es where items: "r_items data = Val items" "items \<noteq> []"
    and chk: "check_items ar ans uid s 0 0 [] items = Inr (tot, es)" and ins: "ans InsertSale = Done"
    by blast
  let ?row = "new_sale uid data tot s"
  let ?s1 = "s\<lparr>sales := sales s @ [?row]\<rparr>"
  obtain r s' where run: "process_items ans (s_id ?row) 0 es ?s1 = (r, s')"
    by (cases "process_items ans (s_id ?row) 0 es ?s1") auto
  have "products (snd (create_sale ar ans (Some uid) data s)) = products s'"
    using run by (simp add: create_sale_checked [OF items chk ins] split: option.splits prod.splits)
  moreover from process_items_restocked [OF run]
  have "list_all2 (restocked (p_id ` ip_product ` set es)) (products s) (products s')" by simp
  moreover have "\<forall>e\<in>set es. ip_product e \<in> set (products s) \<and> p_user_id (ip_product e) = uid"
  proof
    fix e assume e: "e \<in> set es"
    from check_items_Inr [OF chk] have len: "length es = length items"
      and each: "\<forall>j<length items. check_item ans uid s j (items ! j) = Inr (es ! j)"
      by auto
    from e obtain j where "j < length es" "es ! j = e" by (auto simp: in_set_conv_nth)
    with len each have "check_item ans uid s j (items ! j) = Inr e" by auto
    from check_item_product(1,3) [OF this]
    show "ip_product e \<in> set (products s) \<and> p_user_id (ip_product e) = uid" by simp
  qed
  ultimately have "list_all2 (restocked (p_id ` ip_product ` set es)) (products s)
           (products (snd (create_sale ar ans (Some uid) data s)))
       \<and> (\<forall>e\<in>set es. ip_product e \<in> set (products s) \<and> p_user_id (ip_product e) = uid)"
    by simp
  then show ?thesis by (rule exI)
next
  case False
  have "products (snd (create_sale ar ans (Some uid) data s)) = products s"
  proof (cases "r_items data")
    case (Val items)
    show ?thesis
    proof (cases items)
      case Nil
      with Val show ?thesis by (simp add: create_sale_def)
    next
      case (Cons item rest)
      show ?thesis
      proof (cases "check_items ar ans uid s 0 0 [] items")
        case (Inl e)
        then obtain code msg where "check_items ar ans uid s 0 0 [] items = Inl (code, msg)"
          by (cases e) auto
        from create_sale_rejected [OF Val this] show ?thesis by simp
      next
        case (Inr b)
        then obtain tot es where chk: "check_items ar ans uid s 0 0 [] items = Inr (tot, es)"
          by (cases b) auto
        with False Val Cons have "ans InsertSale \<noteq> Done" by auto
        with Val Cons chk show ?thesis
          by (cases "ans InsertSale") (simp_all add: create_sale_def insert_sale_def)
      qed
    qed
  qed (simp_all add: create_sale_def)
  then have "list_all2 (restocked (p_id ` ip_product ` set ([] :: processed list))) (products s)
           (products (snd (create_sale ar ans (Some uid) data s)))
       \<and> (\<forall>e\<in>set ([] :: processed list). ip_product e \<in> set (products s) \<and> p_user_id (ip_product e) = uid)"
    by (simp add: restocked_refl)
  then show ?thesis by (rule exI)
qed

text \<open>
  The stock update of \<^verbatim>\<open>create_sale\<close> filters on the product identifier alone.  When
  identifiers are unique in the products table, a call made for one user leaves the
  product rows of every other user as they were, whatever the store answers: the
  identifier comes from a read filtered by owner.
\<close>

theorem create_sale_keeps_foreign_products:
  assumes "distinct (map p_id (products s))"
  shows "filter (\<lambda>p. p_user_id p \<noteq> uid) (products (snd (create_sale ar ans (Some uid) data s)))
           = filter (\<lambda>p. p_user_id p \<noteq> uid) (products s)"
proof -
  from create_sale_restocked [where s = s and ar = ar and ans = ans and uid = uid and data = data] obtain es :: "processed list" where
    rel: "list_all2 (restocked (p_id ` ip_product ` set es)) (products s)
           (products (snd (create_sale ar ans (Some uid) data s)))"
    and own: "\<forall>e\<in>set es. ip_product e \<in> set (products s) \<and> p_user_id (ip_product e) = uid"
    by blast
  from assms have inj: "inj_on p_id (set (products s))" by (simp add: distinct_map)
  have "\<forall>p\<in>set (products s). p_id p \<in> p_id ` ip_product ` set es \<longrightarrow> p_user_id p = uid"
  proof (intro ballI impI)
    fix p assume p: "p \<in> set (products s)" and "p_id p \<in> p_id ` ip_product ` set es"
    then obtain e where e: "e \<in> set es" "p_id p = p_id (ip_product e)" by auto
    with own have "ip_product e \<in> set (products s)" "p_user_id (ip_product e) = uid" by auto
    with inj p e(2) show "p_user_id p = uid" by (auto dest: inj_onD)
  qed
  from restocked_others [OF rel this] show ?thesis .
qed

text \<open>
  On the sample store: a sale by \<open>ana\<close> that also asks for a product of \<open>beto\<close> leaves
  his product row alone.
\<close>

theorem create_sale_keeps_foreign_products_witness:
  "filter (\<lambda>p. p_user_id p \<noteq> ''ana'')
       (products (snd (create_sale exact all_done (Some ''ana'') (order [line 1 2, line 3 1]) shop)))
     = [mate]
   \<and> filter (\<lambda>p. p_user_id p \<noteq> ''ana'') (products shop) = [mate]"
proof -
  have d: "distinct (map p_id (products shop))" by (simp add: sample_defs)
  have "filter (\<lambda>p. p_user_id p \<noteq> ''ana'') (products shop) = [mate]" by (simp add: sample_defs)
  with create_sale_keeps_foreign_products [OF d, where uid = "''ana''" and ar = exact and ans = all_done
      and data = "order [line 1 2, line 3 1]"]
  show ?thesis by simp
qed


text \<open>
  Claim C7 fails on the code.  \<^verbatim>\<open>create_sale\<close> looks the product up among the user's
  rows, and so rejects a product of another user with 404; it stores \<^verbatim>\<open>customer_id\<close>
  as sent.  User \<open>ana\<close> records a sale that refers to customer 2, who belongs to \<open>beto\<close>,
  and her list of sales then carries that customer's row.
\<close>

theorem foreign_customer_leaks:
  "c_user_id raul = ''beto''
   \<and> create_sale exact all_done (Some ''ana'') (order [line 3 1]) shop
       = (Err 404 ''Producto 3 no encontrado'', shop)
   \<and> fst (create_sale exact all_done (Some ''ana'') ((order [line 1 1])\<lparr>r_customer_id := Val 2\<rparr>) shop)
       = Ok200 \<lparr>s_id = 1, s_user_id = ''ana'', s_customer_id = Some 2, s_total = 5 / 2, s_sale_date = 100\<rparr>
   \<and> get_sales all_done (Some ''ana'')
        (snd (create_sale exact all_done (Some ''ana'') ((order [line 1 1])\<lparr>r_customer_id := Val 2\<rparr>) shop))
       = Ok200 [\<lparr>v_sale = \<lparr>s_id = 1, s_user_id = ''ana'', s_customer_id = Some 2, s_total = 5 / 2, s_sale_date = 100\<rparr>,
                 v_sale_items = [\<lparr>iv_item = \<lparr>si_sale_id = 1, si_product_id = 1, si_quantity = 1, si_unit_price = 5 / 2\<rparr>,
                                  iv_products = Some (cafe\<lparr>p_stock := 9\<rparr>)\<rparr>],
                 v_customers = Some raul\<rparr>]"
  by (simp add: get_sales_def embed_sale_def sample_defs store_defs sale_defs format_defs)

subsection \<open>Creating a product\<close>

text \<open>
  \<^verbatim>\<open>float\<close> on integers: beyond \<open>2 ^ 53\<close> it rounds, a tie to the even
  significand.
\<close>

lemma float_int_examples:
  "float_int (2 ^ 53 + 1) = Some (2 ^ 53)"
  "float_int (2 ^ 53 + 3) = Some (2 ^ 53 + 4)"
  "float_int (- 7) = Some (- 7)"
  "float_int 0 = Some 0"
  by code_simp+

text \<open>
  \<^verbatim>\<open>float\<close> of an integer from \<open>2 ^ 1024\<close> on raises, and \<^verbatim>\<open>create_product\<close>
  answers such a price with its 500 and inserts nothing.
\<close>

lemma float_int_huge:
  assumes "2 ^ 1024 \<le> \<bar>n\<bar>"
  shows "float_int n = None"
proof -
  define a where "a = \<bar>n\<bar>"
  define e where "e = nat (bitlen a - 53)"
  define q where "q = a div 2 ^ e"
  define K :: nat where "K = 1024"
  from assms have big: "2 ^ K \<le> a" by (simp add: a_def K_def)
  have "0 < (2::int) ^ K" by simp
  from this big have a: "0 < a" by (rule less_le_trans)
  from bitlen_bounds [OF a] have lo: "2 ^ nat (bitlen a - 1) \<le> a" and hi: "a < 2 ^ nat (bitlen a)"
    by simp_all
  from big hi have "(2::int) ^ K < 2 ^ nat (bitlen a)" by (rule le_less_trans)
  then have len: "K < nat (bitlen a)" by simp
  then have e: "nat (bitlen a - 1) = 52 + e" and e': "K = 52 + 972" "972 \<le> e"
    by (simp_all add: e_def K_def)
  have "2 ^ 52 * 2 ^ e \<le> a" using lo unfolding e by (simp only: power_add)
  then have "2 ^ 52 * 2 ^ e div 2 ^ e \<le> q" unfolding q_def by (rule zdiv_mono1) simp
  then have q: "2 ^ 52 \<le> q" by simp
  from e'(2) have p: "(2::int) ^ 972 \<le> 2 ^ e" by (rule power_increasing) simp
  have "(2::int) ^ K = 2 ^ 52 * 2 ^ 972" unfolding e'(1) by (simp only: power_add)
  also from p have "\<dots> \<le> 2 ^ 52 * 2 ^ e" by (rule mult_left_mono) simp
  also have "\<dots> \<le> q * 2 ^ e" by (rule mult_right_mono) (use q in simp_all)
  finally have 1: "2 ^ K \<le> q * 2 ^ e" .
  have "q * 2 ^ e \<le> (q + 1) * 2 ^ e" by (rule mult_right_mono) simp_all
  with 1 have 2: "2 ^ K \<le> (q + 1) * 2 ^ e" by (rule order_trans)
  from 1 2 show ?thesis
    by (simp add: float_int_def Let_def a_def [symmetric] e_def [symmetric] q_def [symmetric] K_def)
qed

lemma create_product_overflow:
  assumes "q_name data = Val name" "name \<noteq> []"
    and "q_price data = Some (JNum (of_int n))" "2 ^ 1024 \<le> \<bar>n\<bar>"
  shows "create_product py ans (Some uid) data s = (Err 500 ''Error creando producto'', s)"
proof -
  from assms(4) have "n \<noteq> 0" by auto
  with assms(1-3) float_int_huge [OF assms(4)] show ?thesis
    by (simp add: create_product_def truthy_def py_float_def float_num_def)
qed

text \<open>\<^verbatim>\<open>float\<close> of a number other than 0 is not 0.\<close>

lemma float_int_zero:
  assumes "float_int n = Some 0"
  shows "n = 0"
proof (rule ccontr)
  assume n: "n \<noteq> 0"
  define a where "a = \<bar>n\<bar>"
  define e where "e = nat (bitlen a - 53)"
  from n have a: "0 < a" by (simp add: a_def)
  from bitlen_bounds [OF a] have upper: "2 ^ nat (bitlen a - 1) \<le> a" by simp
  have "(2::int) ^ e \<le> 2 ^ nat (bitlen a - 1)"
    by (rule power_increasing) (simp_all add: e_def)
  from this upper have "2 ^ e \<le> a" by (rule order_trans)
  then have "0 < a div 2 ^ e" by (simp add: pos_imp_zdiv_pos_iff)
  with assms n show False
    by (simp add: float_int_def Let_def a_def [symmetric] e_def [symmetric] sgn_if split: if_splits)
qed

lemma float_num_zero:
  assumes "float_num r = Some 0"
  shows "r = 0"
proof (cases "r = of_int \<lfloor>r\<rfloor>")
  case True
  with assms have "float_int \<lfloor>r\<rfloor> = Some 0" by (simp add: float_num_def)
  from float_int_zero [OF this] True show ?thesis by simp
next
  case False
  with assms show ?thesis by (simp add: float_num_def)
qed

text \<open>
  Claim C10, amended.  A request whose name is absent, \<^verbatim>\<open>null\<close> or empty, or whose
  price is absent, \<^verbatim>\<open>null\<close> or the number 0, is answered with the 400 "Nombre y precio
  son requeridos" and nothing is inserted.  A product with price 0 is created only from a
  price sent as a non-empty string that \<^verbatim>\<open>float()\<close> reads as 0: never from a number.
\<close>

theorem product_needs_name_and_price:
  "(q_name data = Absent \<or> q_name data = Null \<or> q_name data = Val []
      \<or> q_price data = None \<or> q_price data = Some JNull \<or> q_price data = Some (JNum 0) \<longrightarrow>
      create_product py ans (Some uid) data s = (Err 400 ''Nombre y precio son requeridos'', s))
   \<and> (create_product py ans auth data s = (Ok200 row, s') \<and> p_price row = 0 \<longrightarrow>
        (\<exists>str. q_price data = Some (JStr str) \<and> str \<noteq> [] \<and> float_of_str py str = Some 0))"
proof (intro conjI impI)
  assume "q_name data = Absent \<or> q_name data = Null \<or> q_name data = Val []
      \<or> q_price data = None \<or> q_price data = Some JNull \<or> q_price data = Some (JNum 0)"
  then show "create_product py ans (Some uid) data s = (Err 400 ''Nombre y precio son requeridos'', s)"
    by (auto simp: create_product_def truthy_def split: field.splits option.splits)
next
  assume "create_product py ans auth data s = (Ok200 row, s') \<and> p_price row = 0"
  then show "\<exists>str. q_price data = Some (JStr str) \<and> str \<noteq> [] \<and> float_of_str py str = Some 0"
    by (auto simp: create_product_def truthy_def py_float_def insert_product_def Let_def
        dest: float_num_zero
        split: option.splits field.splits jval.splits if_splits outcome.splits)
qed

text \<open>
  On the sample store: the number 0 as price is refused; the string "0" is not, and the
  product it creates has price 0.
\<close>

theorem product_needs_name_and_price_witness:
  "create_product decimal all_done (Some ''ana'') (new_product ''Agua'' (JNum 0)) shop
     = (Err 400 ''Nombre y precio son requeridos'', shop)
   \<and> q_price (new_product ''Agua'' (JStr ''0'')) = Some (JStr ''0'')
   \<and> float_of_str decimal ''0'' = Some 0"
proof -
  let ?row = "\<lparr>p_id = 4, p_user_id = ''ana'', p_name = ''Agua'', p_price = 0, p_stock = 0,
             p_category = Some [], p_low_stock_alert = 5\<rparr>"
  have zero: "q_price (new_product ''Agua'' (JNum 0)) = Some (JNum 0)" by (simp add: new_product_def)
  have run: "create_product decimal all_done (Some ''ana'') (new_product ''Agua'' (JStr ''0'')) shop
     = (Ok200 ?row, shop\<lparr>products := [cafe, te, mate, ?row]\<rparr>)"
    by (simp add: product_defs sample_defs store_defs)
  have price: "p_price ?row = 0" by simp
  from product_needs_name_and_price [where data = "new_product ''Agua'' (JNum 0)" and py = decimal
      and ans = all_done and uid = "''ana''" and s = shop] zero
  have 1: "create_product decimal all_done (Some ''ana'') (new_product ''Agua'' (JNum 0)) shop
     = (Err 400 ''Nombre y precio son requeridos'', shop)" by blast
  from product_needs_name_and_price [where data = "new_product ''Agua'' (JStr ''0'')" and py = decimal
      and ans = all_done and auth = "Some ''ana''" and s = shop and row = ?row
      and s' = "shop\<lparr>products := [cafe, te, mate, ?row]\<rparr>"] run price
  obtain str where "q_price (new_product ''Agua'' (JStr ''0'')) = Some (JStr str)"
    "float_of_str decimal str = Some 0" by blast
  then have 2: "q_price (new_product ''Agua'' (JStr ''0'')) = Some (JStr ''0'')"
    "float_of_str decimal ''0'' = Some 0"
    by (simp_all add: new_product_def)
  from 1 2 show ?thesis by simp
qed

text \<open>
  Claim C10 as stated fails: with the price sent as the string "0" the truthiness test
  passes, \<^verbatim>\<open>float("0")\<close> is 0, and the product is inserted with price 0.
\<close>

theorem zero_price_created:
  "create_product decimal all_done (Some ''ana'') (new_product ''Agua'' (JStr ''0'')) shop
   = (Ok200 \<lparr>p_id = 4, p_user_id = ''ana'', p_name = ''Agua'', p_price = 0, p_stock = 0,
             p_category = Some [], p_low_stock_alert = 5\<rparr>,
      shop\<lparr>products := [cafe, te, mate,
             \<lparr>p_id = 4, p_user_id = ''ana'', p_name = ''Agua'', p_price = 0, p_stock = 0,
             p_category = Some [], p_low_stock_alert = 5\<rparr>]\<rparr>)"
  by (simp add: product_defs sample_defs store_defs)


end
